theory Spec2Isabelle
  imports Main
begin

section \<open>The cache store\<close>

text \<open>
  The index keeps its cache in an SQLite database that it reaches through one
  connection, \<^verbatim>\<open>self._db\<close>. The statements of
  \<^verbatim>\<open>zim/notebook/index/__init__.py\<close> select, insert and delete rows by column
  name, so a row is a list of named values, a table a list of rows, and the database the
  list of its tables under their names, which is what \<^verbatim>\<open>sqlite_master\<close> lists.
\<close>

datatype sqlval = Null | Integer int | Text string

type_synonym row = "(string \<times> sqlval) list"

type_synonym table = "row list"

type_synonym tables = "(string \<times> table) list"

datatype error =
    OperationalError
  | DatabaseError
  | AssertionError
  | AttributeError
  | TypeError
  | ValueError
  | OverflowError
  | FileNotFoundError

text \<open>
  \<^verbatim>\<open>sqlite3.OperationalError\<close> is what a statement on a missing table raises; any
  statement on a file that is no SQLite database raises \<^verbatim>\<open>sqlite3.DatabaseError\<close>.
  A connection sees its own uncommitted changes (\<open>working\<close>); \<open>committed\<close> is the
  store as any other reader finds it.
\<close>

record connection =
  is_database :: bool
  committed :: tables
  working :: tables

text \<open>
  SQLite finds a table or a column by its name without regard to the case of ASCII
  letters. Two names are the same when their characters are, each capital letter taken
  as its small one.
\<close>

definition lower_code :: "char \<Rightarrow> nat" where
  "lower_code ch = (let n = of_char ch in if 65 \<le> n \<and> n \<le> 90 then n + 32 else n)"

definition same_name :: "string \<Rightarrow> string \<Rightarrow> bool" where
  "same_name a b \<longleftrightarrow> map lower_code a = map lower_code b"

fun named :: "(string \<times> 'a) list \<Rightarrow> string \<Rightarrow> 'a option" where
  "named [] k = None"
| "named ((n, v) # rest) k = (if same_name n k then Some v else named rest k)"

fun store_named :: "string \<Rightarrow> 'a \<Rightarrow> (string \<times> 'a) list \<Rightarrow> (string \<times> 'a) list" where
  "store_named k v [] = [(k, v)]"
| "store_named k v ((n, w) # rest) =
     (if same_name n k then (n, v) # rest else (n, w) # store_named k v rest)"

definition remove_named :: "string \<Rightarrow> (string \<times> 'a) list \<Rightarrow> (string \<times> 'a) list" where
  "remove_named k t = filter (\<lambda>(n, v). \<not> same_name n k) t"

definition column :: "string \<Rightarrow> row \<Rightarrow> sqlval" where
  "column c r = (case named r c of None \<Rightarrow> Null | Some v \<Rightarrow> v)"

text \<open>The condition \<^verbatim>\<open>WHERE c=?\<close>: a comparison with NULL is never true.\<close>

definition matches :: "string \<Rightarrow> sqlval \<Rightarrow> row \<Rightarrow> bool" where
  "matches c v r \<longleftrightarrow> v \<noteq> Null \<and> column c r = v"

definition select_where :: "string \<Rightarrow> string \<Rightarrow> sqlval \<Rightarrow> tables \<Rightarrow> error + row list" where
  "select_where tbl c v t =
     (case named t tbl of
        None \<Rightarrow> Inl OperationalError
      | Some rows \<Rightarrow> Inr (filter (matches c v) rows))"

definition delete_where :: "string \<Rightarrow> string \<Rightarrow> sqlval \<Rightarrow> tables \<Rightarrow> error + tables" where
  "delete_where tbl c v t =
     (case named t tbl of
        None \<Rightarrow> Inl OperationalError
      | Some rows \<Rightarrow> Inr (store_named tbl (filter (\<lambda>r. \<not> matches c v r) rows) t))"

definition insert_into :: "string \<Rightarrow> row \<Rightarrow> tables \<Rightarrow> error + tables" where
  "insert_into tbl r t =
     (case named t tbl of
        None \<Rightarrow> Inl OperationalError
      | Some rows \<Rightarrow> Inr (store_named tbl (rows @ [r]) t))"

text \<open>
  \<^verbatim>\<open>INSERT OR REPLACE\<close> into a table with a \<^verbatim>\<open>UNIQUE\<close> column: the rows that
  hold the new row's value in that column are deleted, then the row is inserted.
\<close>

definition insert_or_replace :: "string \<Rightarrow> string \<Rightarrow> row \<Rightarrow> tables \<Rightarrow> error + tables" where
  "insert_or_replace tbl ucol r t =
     (case named t tbl of
        None \<Rightarrow> Inl OperationalError
      | Some rows \<Rightarrow>
          Inr (store_named tbl (filter (\<lambda>r'. \<not> matches ucol (column ucol r) r') rows @ [r]) t))"

definition create_table :: "string \<Rightarrow> tables \<Rightarrow> error + tables" where
  "create_table tbl t =
     (case named t tbl of
        None \<Rightarrow> Inr (t @ [(tbl, [])])
      | Some rows \<Rightarrow> Inl OperationalError)"

text \<open>
  \<^verbatim>\<open>'DROP TABLE %s' % table\<close> puts the name into the statement as it is, without
  quotes, so it is for SQLite's parser to say which table the statement drops. The
  parser is a parameter, \<open>target\<close>: the name of the table that the statement with
  this text is about, or nothing when SQLite rejects the statement, as it does for
  \<^verbatim>\<open>my table\<close>, \<^verbatim>\<open>a-b\<close> and \<^verbatim>\<open>order\<close>. A rejected statement raises
  \<^verbatim>\<open>sqlite3.OperationalError\<close>, and so does one about a table that is not there.
\<close>

definition drop_table :: "(string \<Rightarrow> string option) \<Rightarrow> string \<Rightarrow> tables \<Rightarrow> error + tables" where
  "drop_table target tbl t =
     (case target tbl of
        None \<Rightarrow> Inl OperationalError
      | Some d \<Rightarrow>
          (case named t d of
             None \<Rightarrow> Inl OperationalError
           | Some rows \<Rightarrow> Inr (remove_named d t)))"

text \<open>
  A name can be written without quotes if it is an identifier, that is a letter, an
  underscore or a character beyond ASCII, followed by such characters, digits or
  \<^verbatim>\<open>$\<close>, and the statement with it is about the table of that name, as it is
  unless the word is one that SQLite reserves.
\<close>

definition ident_start :: "char \<Rightarrow> bool" where
  "ident_start ch \<longleftrightarrow>
     (let n = (of_char ch :: nat)
      in (65 \<le> n \<and> n \<le> 90) \<or> (97 \<le> n \<and> n \<le> 122) \<or> n = 95 \<or> 128 \<le> n)"

definition ident_char :: "char \<Rightarrow> bool" where
  "ident_char ch \<longleftrightarrow>
     (let n = (of_char ch :: nat) in ident_start ch \<or> (48 \<le> n \<and> n \<le> 57) \<or> n = 36)"

definition bare_identifier :: "string \<Rightarrow> bool" where
  "bare_identifier name \<longleftrightarrow>
     (case name of [] \<Rightarrow> False | ch # rest \<Rightarrow> ident_start ch \<and> list_all ident_char rest)"

definition droppable :: "(string \<Rightarrow> string option) \<Rightarrow> string \<Rightarrow> bool" where
  "droppable target name \<longleftrightarrow>
     bare_identifier name \<and>
     (case target name of None \<Rightarrow> False | Some d \<Rightarrow> same_name d name)"

text \<open>A query reads the connection, a statement changes its uncommitted tables.\<close>

definition query :: "(tables \<Rightarrow> error + 'a) \<Rightarrow> connection \<Rightarrow> error + 'a" where
  "query q c = (if is_database c then q (working c) else Inl DatabaseError)"

definition execute :: "(tables \<Rightarrow> error + tables) \<Rightarrow> connection \<Rightarrow> error + connection" where
  "execute s c =
     (if is_database c
      then (case s (working c) of Inl e \<Rightarrow> Inl e | Inr t \<Rightarrow> Inr (c\<lparr>working := t\<rparr>))
      else Inl DatabaseError)"

definition commit :: "connection \<Rightarrow> connection" where
  "commit c = c\<lparr>committed := working c\<rparr>"

definition fetchone :: "row list \<Rightarrow> row option" where
  "fetchone rows = (case rows of [] \<Rightarrow> None | r # rest \<Rightarrow> Some r)"

section \<open>What an observer sees\<close>

text \<open>
  Log records, signals (with the class of the object that emits them), commits, the
  re-entrant lock, the markers a generator yields, and the calls that pull from the
  checker and from the Files indexer are recorded in the order they happen.
\<close>

datatype level = DEBUG | INFO | WARNING | EXCEPTION

datatype event =
    Log level string
  | Emit string string
  | Commit
  | Acquire
  | Release
  | Yield
  | Check_next "bool option"
  | Update_iter
  | Update_next bool

datatype file_content = Garbage | Sqlite tables

text \<open>
  The state of an \<^verbatim>\<open>Index\<close> object and of what it touches: its attributes
  \<^verbatim>\<open>dbpath\<close> and \<^verbatim>\<open>_db\<close>, the files on disk that a database path can
  name, and the events so far. The class sets no attribute \<^verbatim>\<open>db\<close>.
\<close>

record index =
  dbpath :: string
  priv_db :: connection
  disk :: "string \<rightharpoonup> file_content"
  trace :: "event list"

type_synonym 'a result = "(error + 'a) \<times> index"

definition record_event :: "event \<Rightarrow> index \<Rightarrow> index" where
  "record_event e idx = idx\<lparr>trace := trace idx @ [e]\<rparr>"

definition db_execute :: "(tables \<Rightarrow> error + tables) \<Rightarrow> index \<Rightarrow> unit result" where
  "db_execute s idx =
     (case execute s (priv_db idx) of
        Inl e \<Rightarrow> (Inl e, idx)
      | Inr c \<Rightarrow> (Inr (), idx\<lparr>priv_db := c\<rparr>))"

text \<open>A commit of a connection to a file writes the file.\<close>

definition db_commit :: "index \<Rightarrow> index" where
  "db_commit idx =
     record_event Commit
       (idx\<lparr>priv_db := commit (priv_db idx),
            disk := (if dbpath idx = '':memory:'' then disk idx
                     else (disk idx)(dbpath idx \<mapsto> Sqlite (working (priv_db idx))))\<rparr>)"

text \<open>\<^verbatim>\<open>with self.lock:\<close> releases the lock also when the body raises.\<close>

definition with_lock :: "(index \<Rightarrow> 'a result) \<Rightarrow> index \<Rightarrow> 'a result" where
  "with_lock body idx =
     (case body (record_event Acquire idx) of (r, idx') \<Rightarrow> (r, record_event Release idx'))"

section \<open>The property table\<close>

definition DB_VERSION :: string where
  "DB_VERSION = ''0.7''"

text \<open>
  The values passed for a key or a value are \<^verbatim>\<open>None\<close>, integers and strings.
  A value that Python binds to a statement reaches SQLite as \<open>Null\<close> for
  \<^verbatim>\<open>None\<close>, as an integer for an \<^verbatim>\<open>int\<close> and as text for a string, and a
  value read comes back the same way. Both columns of the property table are declared
  \<^verbatim>\<open>TEXT\<close>: a number stored in such a column is stored as its decimal text, and a
  value compared with the column is taken as text too.
\<close>

fun show_nat :: "nat \<Rightarrow> string" where
  "show_nat n =
     (if n < 10 then [''0123456789'' ! n]
      else show_nat (n div 10) @ [''0123456789'' ! (n mod 10)])"

definition show_int :: "int \<Rightarrow> string" where
  "show_int i = (if i < 0 then CHR ''-'' # show_nat (nat (- i)) else show_nat (nat i))"

fun text_affinity :: "sqlval \<Rightarrow> sqlval" where
  "text_affinity Null = Null"
| "text_affinity (Integer i) = Text (show_int i)"
| "text_affinity (Text s) = Text s"

text \<open>
  An \<^verbatim>\<open>int\<close> is bound as a signed integer of 64 bits; binding one that does not
  fit raises \<^verbatim>\<open>OverflowError\<close>.
\<close>

definition bindable :: "sqlval \<Rightarrow> bool" where
  "bindable v \<longleftrightarrow> (case v of Integer i \<Rightarrow> - (2 ^ 63) \<le> i \<and> i < 2 ^ 63 | other \<Rightarrow> True)"

text \<open>
  \<^verbatim>\<open>get_property\<close> returns the value column of the first row found, or
  \<^verbatim>\<open>None\<close>. \<^verbatim>\<open>set_property\<close> deletes when the value is \<^verbatim>\<open>None\<close>, and
  else inserts or replaces; the key column is the unique one. The property table is the
  one that \<^verbatim>\<open>_db_init\<close> creates, with the columns \<^verbatim>\<open>key\<close> and \<^verbatim>\<open>value\<close>.
\<close>

definition get_property :: "sqlval \<Rightarrow> index \<Rightarrow> error + sqlval" where
  "get_property key idx =
     (if bindable key
      then (case query (select_where ''zim_index'' ''key'' (text_affinity key)) (priv_db idx) of
              Inl e \<Rightarrow> Inl e
            | Inr rows \<Rightarrow>
                (case fetchone rows of
                   None \<Rightarrow> Inr Null
                 | Some r \<Rightarrow> Inr (column ''value'' r)))
      else Inl OverflowError)"

definition set_property :: "sqlval \<Rightarrow> sqlval \<Rightarrow> index \<Rightarrow> unit result" where
  "set_property key val idx =
     with_lock (\<lambda>i.
       if val = Null
       then (if bindable key
             then db_execute (delete_where ''zim_index'' ''key'' (text_affinity key)) i
             else (Inl OverflowError, i))
       else (if bindable key \<and> bindable val
             then db_execute (insert_or_replace ''zim_index'' ''key''
                                [(''key'', text_affinity key), (''value'', text_affinity val)]) i
             else (Inl OverflowError, i))) idx"

definition has_table :: "string \<Rightarrow> index \<Rightarrow> bool" where
  "has_table tbl idx \<longleftrightarrow> is_database (priv_db idx) \<and> named (working (priv_db idx)) tbl \<noteq> None"

section \<open>The collaborators\<close>

text \<open>
  The checker and the four indexers live in modules of their own
  (\<^verbatim>\<open>files\<close>, \<^verbatim>\<open>pages\<close>, \<^verbatim>\<open>links\<close>, \<^verbatim>\<open>tags\<close>); the index only
  calls them. They are parameters here, and they act on the tables of the connection
  that the index hands them. SQLite's reading of a name written without quotes is a
  parameter too (\<open>drop_target\<close>).

  A Python generator is pulled one item at a time, and what it does at each pull depends
  on the database as it is then. A value of type \<open>'a gen\<close> answers a pull, from the
  tables it finds, with the tables it leaves and either the end of the sequence
  (\<open>Stop\<close>) or an item and the rest of the generator (\<open>Item\<close>). Every such
  sequence ends: the checker walks a finite tree, and an update pass works off the rows
  that are flagged.
\<close>

datatype 'a gen = Gen "tables \<Rightarrow> 'a gen_step"
  and 'a gen_step = Stop tables | Item 'a tables "'a gen"

datatype node_kind = File | Folder | Other

text \<open>
  A storage node answers its path relative to the notebook root and whether it exists;
  \<open>Other\<close> is an argument that is neither a \<^verbatim>\<open>File\<close> nor a \<^verbatim>\<open>Folder\<close>.
\<close>

record node =
  kind :: node_kind
  relpath :: string
  node_exists :: bool

record collab =
  files_init :: "tables \<Rightarrow> tables"
  pages_init :: "tables \<Rightarrow> tables"
  links_init :: "tables \<Rightarrow> tables"
  tags_init :: "tables \<Rightarrow> tables"
  check_iter :: "node option \<Rightarrow> bool gen"
  files_update_iter :: "unit gen"
  files_update_file :: "sqlval \<Rightarrow> node \<Rightarrow> tables \<Rightarrow> tables"
  files_delete_file :: "sqlval \<Rightarrow> tables \<Rightarrow> tables"
  files_update_folder :: "sqlval \<Rightarrow> node \<Rightarrow> tables \<Rightarrow> tables"
  files_delete_folder :: "sqlval \<Rightarrow> tables \<Rightarrow> tables"
  files_interactive_add_file :: "node \<Rightarrow> tables \<Rightarrow> tables"
  HREF_REL_ABSOLUTE :: sqlval
  drop_target :: "string \<Rightarrow> string option"

definition set_working :: "tables \<Rightarrow> index \<Rightarrow> index" where
  "set_working t idx = idx\<lparr>priv_db := (priv_db idx)\<lparr>working := t\<rparr>\<rparr>"

definition indexer_call :: "(tables \<Rightarrow> tables) \<Rightarrow> index \<Rightarrow> unit result" where
  "indexer_call f idx = (Inr (), set_working (f (working (priv_db idx))) idx)"

section \<open>Opening the cache\<close>

text \<open>
  \<^verbatim>\<open>IndexUpdateIter.__init__\<close> constructs the Files, Pages, Links and Tags
  indexers in this order, each on the same connection.
\<close>

definition IndexUpdateIter_init :: "collab \<Rightarrow> index \<Rightarrow> index" where
  "IndexUpdateIter_init c idx =
     set_working (tags_init c (links_init c (pages_init c (files_init c
       (working (priv_db idx)))))) idx"

text \<open>\<^verbatim>\<open>name NOT LIKE "sqlite%"\<close>: \<^verbatim>\<open>LIKE\<close> ignores the case of ASCII letters.\<close>

definition like_sqlite :: "string \<Rightarrow> bool" where
  "like_sqlite name \<longleftrightarrow> same_name (take 6 name) ''sqlite''"

definition select_table_names :: "tables \<Rightarrow> error + string list" where
  "select_table_names t = Inr (filter (\<lambda>name. \<not> like_sqlite name) (map fst t))"

fun drop_tables ::
  "(string \<Rightarrow> string option) \<Rightarrow> string list \<Rightarrow> index \<Rightarrow> unit result" where
  "drop_tables target [] idx = (Inr (), idx)"
| "drop_tables target (name # names) idx =
     (case db_execute (drop_table target name) idx of
        (Inl e, idx') \<Rightarrow> (Inl e, idx')
      | (Inr u, idx') \<Rightarrow> drop_tables target names idx')"

definition then_stmt ::
  "(tables \<Rightarrow> error + tables) \<Rightarrow> (tables \<Rightarrow> error + tables) \<Rightarrow> tables \<Rightarrow> error + tables" where
  "then_stmt s1 s2 t = (case s1 t of Inl e \<Rightarrow> Inl e | Inr t' \<Rightarrow> s2 t')"

definition db_init :: "collab \<Rightarrow> index \<Rightarrow> unit result" where
  "db_init c idx =
     (case query select_table_names (priv_db idx) of
        Inl e \<Rightarrow> (Inl e, idx)
      | Inr names \<Rightarrow>
          (case drop_tables (drop_target c) names idx of
             (Inl e, i1) \<Rightarrow> (Inl e, i1)
           | (Inr u, i1) \<Rightarrow>
               (case db_execute
                       (then_stmt (create_table ''zim_index'')
                          (insert_into ''zim_index''
                             [(''key'', Text ''db_version''), (''value'', Text DB_VERSION)]))
                       (record_event (Log DEBUG ''(Re-)Initializing database for index'') i1) of
                  (Inl e, i2) \<Rightarrow> (Inl e, i2)
                | (Inr u, i2) \<Rightarrow> (Inr (), db_commit (IndexUpdateIter_init c i2)))))"

definition sqlite3_Connection :: "string \<Rightarrow> (string \<rightharpoonup> file_content) \<Rightarrow> connection" where
  "sqlite3_Connection path fs =
     (if path = '':memory:'' then \<lparr>is_database = True, committed = [], working = []\<rparr>
      else (case fs path of
              None \<Rightarrow> \<lparr>is_database = True, committed = [], working = []\<rparr>
            | Some Garbage \<Rightarrow> \<lparr>is_database = False, committed = [], working = []\<rparr>
            | Some (Sqlite t) \<Rightarrow> \<lparr>is_database = True, committed = t, working = t\<rparr>))"

text \<open>
  \<^verbatim>\<open>new_connection\<close>; the second argument is the attribute \<^verbatim>\<open>_db\<close> when the
  object has it already (\<^verbatim>\<open>hasattr(self, '_db')\<close>).
\<close>

definition new_connection ::
  "string \<Rightarrow> connection option \<Rightarrow> (string \<rightharpoonup> file_content) \<Rightarrow> connection" where
  "new_connection path cur fs =
     (case cur of
        Some db \<Rightarrow> (if path = '':memory:'' then db else sqlite3_Connection path fs)
      | None \<Rightarrow> sqlite3_Connection path fs)"

text \<open>
  The attributes that \<^verbatim>\<open>Index.__init__\<close> sets. The connection is stored as
  \<^verbatim>\<open>_db\<close>; it is the iterator class that has an attribute \<^verbatim>\<open>db\<close>. Reading
  \<^verbatim>\<open>self.db\<close> of an \<^verbatim>\<open>Index\<close> gives the connection if there is such an
  attribute and raises \<^verbatim>\<open>AttributeError\<close> otherwise.
\<close>

definition Index_attributes :: "string list" where
  "Index_attributes = [''dbpath'', ''layout'', ''lock'', ''_db'', ''update_iter'']"

definition getattr_db :: "index \<Rightarrow> error + connection" where
  "getattr_db idx =
     (if ''db'' \<in> set Index_attributes then Inr (priv_db idx) else Inl AttributeError)"

definition file_remove :: "string \<Rightarrow> index \<Rightarrow> unit result" where
  "file_remove path idx =
     (case disk idx path of
        None \<Rightarrow> (Inl FileNotFoundError, idx)
      | Some content \<Rightarrow> (Inr (), idx\<lparr>disk := (disk idx)(path := None)\<rparr>))"

text \<open>
  The handler of \<^verbatim>\<open>sqlite3.DatabaseError\<close> in \<^verbatim>\<open>_db_check\<close>. The connection
  that \<^verbatim>\<open>new_connection\<close> returns is bound to a local name, so \<^verbatim>\<open>_db_init\<close>
  runs on the connection the object already has.
\<close>

definition db_recover :: "collab \<Rightarrow> index \<Rightarrow> unit result" where
  "db_recover c idx =
     (if dbpath idx = '':memory:'' then (Inl AssertionError, idx)
      else
        let i1 = record_event
                   (Log WARNING (''Overwriting possibly corrupt database: '' @ dbpath idx)) idx
        in (case getattr_db i1 of
              Inl e \<Rightarrow> (Inl e, i1)
            | Inr closed \<Rightarrow>
                let i2 = (case file_remove (dbpath i1) i1 of
                            (Inl e, i) \<Rightarrow>
                              record_event (Log EXCEPTION (''Could not delete: '' @ dbpath i1)) i
                          | (Inr u, i) \<Rightarrow> i);
                    db = new_connection (dbpath i2) (Some (priv_db i2)) (disk i2)
                in db_init c i2))"

definition db_check_try :: "collab \<Rightarrow> index \<Rightarrow> unit result" where
  "db_check_try c idx =
     (case get_property (Text ''db_version'') idx of
        Inl e \<Rightarrow> (Inl e, idx)
      | Inr v \<Rightarrow>
          if v = Text DB_VERSION then (Inr (), idx)
          else db_init c (record_event (Log DEBUG ''Index db_version out of date'') idx))"

definition db_check :: "collab \<Rightarrow> index \<Rightarrow> unit result" where
  "db_check c idx =
     (case db_check_try c idx of
        (Inr u, i) \<Rightarrow> (Inr u, i)
      | (Inl e, i) \<Rightarrow>
          if e = OperationalError
          then db_init c (record_event (Log DEBUG ''Operational error, init tabels'') i)
          else if e = DatabaseError then db_recover c i
          else (Inl e, i))"

text \<open>
  \<^verbatim>\<open>Index.__init__\<close>, given the path and the files on disk. After the check it
  constructs the iterator it keeps, and connects \<^verbatim>\<open>on_commit\<close> to the iterator's
  \<^verbatim>\<open>commit\<close> signal.
\<close>

definition Index_init :: "collab \<Rightarrow> string \<Rightarrow> (string \<rightharpoonup> file_content) \<Rightarrow> unit result" where
  "Index_init c path fs =
     (case db_check c \<lparr>dbpath = path, priv_db = new_connection path None fs,
                       disk = fs, trace = []\<rparr> of
        (Inl e, i) \<Rightarrow> (Inl e, i)
      | (Inr u, i) \<Rightarrow> (Inr (), IndexUpdateIter_init c i))"

definition flush :: "collab \<Rightarrow> index \<Rightarrow> unit result" where
  "flush c idx = with_lock (db_init c) (record_event (Log INFO ''Flushing index'') idx)"

definition flag_reindex :: "collab \<Rightarrow> index \<Rightarrow> unit result" where
  "flag_reindex c idx = flush c idx"

section \<open>The update iterator\<close>

definition on_commit :: "index \<Rightarrow> index" where
  "on_commit idx = record_event (Emit ''Index'' ''changed'') idx"

text \<open>
  The iterator emits \<^verbatim>\<open>commit\<close>; the handler connected to it in
  \<^verbatim>\<open>Index.__init__\<close> runs before \<^verbatim>\<open>emit\<close> returns.
\<close>

definition emit_commit :: "index \<Rightarrow> index" where
  "emit_commit idx = on_commit (record_event (Emit ''IndexUpdateIter'' ''commit'') idx)"

text \<open>
  A generator function returns the states in which it is suspended, one for each marker
  it yields, and the state in which it ends. The loop
  \<^verbatim>\<open>for i in self.files.update_iter(): yield\<close>:
\<close>

primrec update_loop :: "unit gen \<Rightarrow> index \<Rightarrow> index list \<times> index"
  and update_loop_step :: "unit gen_step \<Rightarrow> index \<Rightarrow> index list \<times> index" where
  "update_loop (Gen f) idx = update_loop_step (f (working (priv_db idx))) idx"
| "update_loop_step (Stop t) idx = ([], record_event (Update_next False) (set_working t idx))"
| "update_loop_step (Item i t g) idx =
     (let i1 = record_event Yield (record_event (Update_next True) (set_working t idx))
      in case update_loop g i1 of (ys, i2) \<Rightarrow> (i1 # ys, i2))"

text \<open>The loop \<^verbatim>\<open>for out_of_date in checker.check_iter(): ...\<close>:\<close>

primrec check_loop :: "bool gen \<Rightarrow> unit gen \<Rightarrow> index \<Rightarrow> index list \<times> index"
  and check_loop_step :: "bool gen_step \<Rightarrow> unit gen \<Rightarrow> index \<Rightarrow> index list \<times> index" where
  "check_loop (Gen f) upd idx = check_loop_step (f (working (priv_db idx))) upd idx"
| "check_loop_step (Stop t) upd idx =
     ([], record_event (Check_next None) (set_working t idx))"
| "check_loop_step (Item out_of_date t g) upd idx =
     (let i1 = record_event Yield
                 (record_event (Check_next (Some out_of_date)) (set_working t idx))
      in case (if out_of_date then update_loop upd (record_event Update_iter i1)
               else ([], i1)) of
           (ys, i2) \<Rightarrow> (case check_loop g upd i2 of (zs, i3) \<Rightarrow> (i1 # ys @ zs, i3)))"

definition check_and_update_iter :: "collab \<Rightarrow> node option \<Rightarrow> index \<Rightarrow> index list \<times> index" where
  "check_and_update_iter c file idx =
     (case check_loop (check_iter c file) (files_update_iter c) idx of
        (ys, i) \<Rightarrow> (ys, emit_commit (db_commit i)))"

text \<open>
  A caller that asks the generator for its next item \<open>k\<close> times leaves it unstarted
  (\<open>k = 0\<close>), suspended at its \<open>k\<close>-th marker, or run to its end.
\<close>

definition pulled :: "nat \<Rightarrow> index \<Rightarrow> index list \<times> index \<Rightarrow> index" where
  "pulled k idx run =
     (if k = 0 then idx
      else if k \<le> length (fst run) then fst run ! (k - 1)
      else snd run)"

definition check_and_update :: "collab \<Rightarrow> node option \<Rightarrow> index \<Rightarrow> index" where
  "check_and_update c file idx = snd (check_and_update_iter c file idx)"

definition new_events :: "index \<Rightarrow> index \<Rightarrow> event list" where
  "new_events idx idx' = drop (length (trace idx)) (trace idx')"

section \<open>Updating one file\<close>

definition update_file_dispatch :: "collab \<Rightarrow> node \<Rightarrow> row option \<Rightarrow> index \<Rightarrow> unit result" where
  "update_file_dispatch c file row idx =
     (case row of
        Some r \<Rightarrow>
          (let node_id = column ''id'' r in
           case kind file of
             File \<Rightarrow>
               if node_exists file then indexer_call (files_update_file c node_id file) idx
               else indexer_call (files_delete_file c node_id) idx
           | Folder \<Rightarrow>
               if node_exists file then indexer_call (files_update_folder c node_id file) idx
               else indexer_call (files_delete_folder c node_id) idx
           | Other \<Rightarrow> (Inl TypeError, idx))
      | None \<Rightarrow>
          (case kind file of
             File \<Rightarrow> indexer_call (files_interactive_add_file c file) idx
           | Folder \<Rightarrow> (Inl ValueError, idx)
           | Other \<Rightarrow> (Inl TypeError, idx)))"

definition update_file :: "collab \<Rightarrow> node \<Rightarrow> index \<Rightarrow> unit result" where
  "update_file c file idx =
     (case query (select_where ''files'' ''path'' (Text (relpath file))) (priv_db idx) of
        Inl e \<Rightarrow> (Inl e, idx)
      | Inr rows \<Rightarrow>
          if fetchone rows = None \<and> \<not> node_exists file then (Inr (), idx)
          else
            (case update_file_dispatch c file (fetchone rows)
                    (record_event (Emit ''FilesIndexer'' ''start-update'') idx) of
               (Inl e, i) \<Rightarrow> (Inl e, i)
             | (Inr u, i) \<Rightarrow>
                 (Inr (), on_commit (db_commit
                     (record_event (Emit ''FilesIndexer'' ''finish-update'') i)))))"

section \<open>A small notebook\<close>

text \<open>
  Concrete collaborators and a concrete index, on which the functions above can be run.
  The constructor of an indexer creates its table if the table is not there. The files
  table flags a row that needs an update with \<open>index_status = 1\<close>. The checker
  examines a given list of paths and flags those found out of date; an update pass
  clears the flagged rows one by one and ends when none is left.
\<close>

definition ensure_table :: "string \<Rightarrow> tables \<Rightarrow> tables" where
  "ensure_table name t = (case named t name of None \<Rightarrow> t @ [(name, [])] | Some rows \<Rightarrow> t)"

definition map_rows :: "string \<Rightarrow> (table \<Rightarrow> table) \<Rightarrow> tables \<Rightarrow> tables" where
  "map_rows tbl f t =
     (case named t tbl of None \<Rightarrow> t | Some rows \<Rightarrow> store_named tbl (f rows) t)"

definition flag_path :: "string \<Rightarrow> tables \<Rightarrow> tables" where
  "flag_path p t =
     map_rows ''files''
       (map (\<lambda>r. if column ''path'' r = Text p
                 then store_named ''index_status'' (Integer 1) r else r)) t"

fun clear_first :: "table \<Rightarrow> table" where
  "clear_first [] = []"
| "clear_first (r # rs) =
     (if column ''index_status'' r = Integer 1
      then store_named ''index_status'' (Integer 0) r # rs
      else r # clear_first rs)"

definition flagged :: "tables \<Rightarrow> bool" where
  "flagged t =
     (case named t ''files'' of
        None \<Rightarrow> False
      | Some rows \<Rightarrow> list_ex (\<lambda>r. column ''index_status'' r = Integer 1) rows)"

fun example_checker :: "(string \<times> bool) list \<Rightarrow> bool gen" where
  "example_checker [] = Gen (\<lambda>t. Stop t)"
| "example_checker ((p, b) # rest) =
     Gen (\<lambda>t. Item b (if b then flag_path p t else t) (example_checker rest))"

fun example_updater :: "nat \<Rightarrow> unit gen" where
  "example_updater 0 = Gen (\<lambda>t. Stop t)"
| "example_updater (Suc n) =
     Gen (\<lambda>t. if flagged t
              then Item () (map_rows ''files'' clear_first t) (example_updater n)
              else Stop t)"

definition example_tables :: tables where
  "example_tables =
     [(''zim_index'', [[(''key'', Text ''db_version''), (''value'', Text ''0.7'')]]),
      (''files'',
       [[(''id'', Integer 1), (''path'', Text ''a.txt''), (''index_status'', Integer 0)],
        [(''id'', Integer 2), (''path'', Text ''b.txt''), (''index_status'', Integer 0)]])]"

text \<open>
  The example reads an identifier as the name it spells, unless it is one of the words
  listed, which are some of those that SQLite reserves. It rejects every other text.
\<close>

definition example_keywords :: "string list" where
  "example_keywords =
     [''create'', ''delete'', ''drop'', ''from'', ''group'', ''index'', ''insert'', ''into'',
      ''order'', ''select'', ''table'', ''update'', ''values'', ''where'']"

definition example_target :: "string \<Rightarrow> string option" where
  "example_target name =
     (if bare_identifier name \<and> \<not> list_ex (same_name name) example_keywords
      then Some name else None)"

definition example_collab :: "(string \<times> bool) list \<Rightarrow> collab" where
  "example_collab items =
     \<lparr>files_init = ensure_table ''files'', pages_init = ensure_table ''pages'',
      links_init = ensure_table ''links'', tags_init = ensure_table ''tags'',
      check_iter = (\<lambda>file. example_checker items),
      files_update_iter = example_updater 3,
      files_update_file = (\<lambda>i n t. t), files_delete_file = (\<lambda>i t. t),
      files_update_folder = (\<lambda>i n t. t), files_delete_folder = (\<lambda>i t. t),
      files_interactive_add_file = (\<lambda>n t. t),
      HREF_REL_ABSOLUTE = Integer 0,
      drop_target = example_target\<rparr>"

definition example_index :: index where
  "example_index =
     \<lparr>dbpath = ''notebook/index.db'',
      priv_db = \<lparr>is_database = True, committed = example_tables, working = example_tables\<rparr>,
      disk = [''notebook/index.db'' \<mapsto> Sqlite example_tables],
      trace = []\<rparr>"

section \<open>Shapes of a run\<close>

text \<open>
  The events of one update pass that updates \<open>n\<close> items: the generator is created,
  each item pulled is passed on as a marker, and the pull that finds nothing left ends
  the pass.
\<close>

definition update_pass :: "nat \<Rightarrow> event list" where
  "update_pass n =
     Update_iter # concat (replicate n [Update_next True, Yield]) @ [Update_next False]"

text \<open>
  An item of the checker that is up to date (\<open>None\<close>), or out of date and followed at
  once by an update pass of \<open>n\<close> items (\<open>Some n\<close>); and a run that treats the
  checker's items one after the other in this way.
\<close>

fun item_events :: "nat option \<Rightarrow> event list" where
  "item_events None = [Check_next (Some False), Yield]"
| "item_events (Some n) = [Check_next (Some True), Yield] @ update_pass n"

definition interleaved :: "nat option list \<Rightarrow> event list" where
  "interleaved items = concat (map item_events items) @ [Check_next None]"

text \<open>
  The order of events in two phases: the checker is pulled to its end, with a marker
  for each of its booleans \<open>bs\<close>, and only then, if one of them was true, a single
  update pass runs.
\<close>

definition two_phase :: "bool list \<Rightarrow> nat \<Rightarrow> event list" where
  "two_phase bs n =
     concat (map (\<lambda>b. [Check_next (Some b), Yield]) bs) @ [Check_next None] @
     (if True \<in> set bs then update_pass n else [])"

text \<open>
  State \<open>s\<close> comes after \<open>idx\<close> with nothing committed in between: the committed
  store and the file on disk are those of \<open>idx\<close>, and the events since are neither a
  commit nor the iterator's \<^verbatim>\<open>commit\<close> signal.
\<close>

definition uncommitted :: "index \<Rightarrow> index \<Rightarrow> bool" where
  "uncommitted idx s \<longleftrightarrow>
     committed (priv_db s) = committed (priv_db idx) \<and> disk s = disk idx \<and>
     dbpath s = dbpath idx \<and> is_database (priv_db s) = is_database (priv_db idx) \<and>
     (\<exists>evs. trace s = trace idx @ evs \<and> Commit \<notin> set evs \<and>
            Emit ''IndexUpdateIter'' ''commit'' \<notin> set evs)"

section \<open>A rebuilt cache\<close>

text \<open>
  The tables of a cache that has been rebuilt from the tables \<open>t\<close>: the tables of
  \<open>t\<close> whose names match \<^verbatim>\<open>sqlite%\<close>, the property table holding the current
  version, and what the constructors of the four indexers then make of these.
\<close>

definition rebuilt :: "collab \<Rightarrow> tables \<Rightarrow> tables" where
  "rebuilt c t =
     tags_init c (links_init c (pages_init c (files_init c
       (filter (\<lambda>(name, rows). like_sqlite name) t @
        [(''zim_index'', [[(''key'', Text ''db_version''), (''value'', Text DB_VERSION)]])]))))"

text \<open>
  The names of the tables differ from one another, as SQLite sees to, and every table
  that \<^verbatim>\<open>_db_init\<close> is to drop has a name that can be written without quotes.
\<close>

definition distinct_names :: "tables \<Rightarrow> bool" where
  "distinct_names t \<longleftrightarrow> distinct (map (\<lambda>(name, rows). map lower_code name) t)"

definition droppable_names :: "(string \<Rightarrow> string option) \<Rightarrow> tables \<Rightarrow> bool" where
  "droppable_names target t \<longleftrightarrow>
     list_all (\<lambda>(name, rows). like_sqlite name \<or> droppable target name) t"

text \<open>
  The stored \<^verbatim>\<open>db_version\<close> is the expected one: the property table exists and
  the first row found for the key holds \<open>DB_VERSION\<close>.
\<close>

definition version_current :: "tables \<Rightarrow> bool" where
  "version_current t =
     (case select_where ''zim_index'' ''key'' (Text ''db_version'') t of
        Inl e \<Rightarrow> False
      | Inr rows \<Rightarrow>
          (case fetchone rows of
             None \<Rightarrow> False
           | Some r \<Rightarrow> column ''value'' r = Text DB_VERSION))"

text \<open>
  A cache written by an older version, with an internal table of SQLite's beside the
  tables of the index; an old cache with a table whose name needs quotes; a current cache
  whose names are in upper case; an index open on the first; an index whose in-memory
  store is not readable as a database; and two storage nodes.
\<close>

definition stale_tables :: tables where
  "stale_tables =
     [(''zim_index'', [[(''key'', Text ''db_version''), (''value'', Text ''0.6'')]]),
      (''files'', [[(''id'', Integer 1), (''path'', Text ''a.txt''), (''index_status'', Integer 0)]]),
      (''sqlite_sequence'', [])]"

definition spaced_tables :: tables where
  "spaced_tables =
     [(''zim_index'', [[(''key'', Text ''db_version''), (''value'', Text ''0.6'')]]),
      (''my table'', [])]"

definition upper_tables :: tables where
  "upper_tables =
     [(''ZIM_INDEX'', [[(''KEY'', Text ''db_version''), (''VALUE'', Text ''0.7'')]])]"

definition stale_index :: index where
  "stale_index =
     \<lparr>dbpath = ''notebook/index.db'',
      priv_db = \<lparr>is_database = True, committed = stale_tables, working = stale_tables\<rparr>,
      disk = [''notebook/index.db'' \<mapsto> Sqlite stale_tables],
      trace = []\<rparr>"

definition corrupt_memory_index :: index where
  "corrupt_memory_index =
     \<lparr>dbpath = '':memory:'',
      priv_db = \<lparr>is_database = False, committed = [], working = []\<rparr>,
      disk = Map.empty,
      trace = []\<rparr>"

definition missing_file :: node where
  "missing_file = \<lparr>kind = File, relpath = ''c.txt'', node_exists = False\<rparr>"

definition strange_node :: node where
  "strange_node = \<lparr>kind = Other, relpath = ''a.txt'', node_exists = False\<rparr>"

section \<open>The placeholder of the current page\<close>

text \<open>
  Modelled from the spec: \<^verbatim>\<open>ROOT_ID\<close> is defined in the pages module. The spec
  reserves the page id \<open>0\<close> for the root sentinel, which is not a real page.
\<close>

definition ROOT_ID :: sqlval where
  "ROOT_ID = Integer 0"

definition pages_of :: "tables \<Rightarrow> table" where
  "pages_of t = (case named t ''pages'' of None \<Rightarrow> [] | Some ps \<Rightarrow> ps)"

definition links_of :: "tables \<Rightarrow> table" where
  "links_of t = (case named t ''links'' of None \<Rightarrow> [] | Some ls \<Rightarrow> ls)"

text \<open>
  Modelled from the spec: how the pages table tells a placeholder from a page with
  content is the business of the Pages indexer. The spec calls a placeholder a page
  with no authored content that exists only because something references it; here its
  row holds \<open>1\<close> in a column \<^verbatim>\<open>is_link_placeholder\<close>. A page is orphaned among
  given link rows when it is a placeholder that none of them targets.
\<close>

definition is_placeholder :: "row \<Rightarrow> bool" where
  "is_placeholder p \<longleftrightarrow> column ''is_link_placeholder'' p = Integer 1"

text \<open>Modelled from the spec: an incoming link of a page is a link row that targets its id.\<close>

definition has_incoming :: "table \<Rightarrow> row \<Rightarrow> bool" where
  "has_incoming ls p \<longleftrightarrow> list_ex (\<lambda>l. column ''target'' l = column ''id'' p) ls"

text \<open>Modelled from the spec: an orphaned page has no content and no incoming link.\<close>

definition orphaned :: "table \<Rightarrow> row \<Rightarrow> bool" where
  "orphaned ls p \<longleftrightarrow> is_placeholder p \<and> \<not> has_incoming ls p"

text \<open>
  Modelled from the spec: \<^verbatim>\<open>LinksIndexer.cleanup_placeholders\<close> is in the links
  module. By the spec it removes the orphaned placeholder pages and their now-dangling
  edges: a placeholder page is destroyed once it has no content and no incoming links.
\<close>

definition cleanup_placeholders :: "tables \<Rightarrow> error + tables" where
  "cleanup_placeholders t =
     (case named t ''pages'' of
        None \<Rightarrow> Inl OperationalError
      | Some ps \<Rightarrow>
          (case named t ''links'' of
             None \<Rightarrow> Inl OperationalError
           | Some ls \<Rightarrow>
               Inr (store_named ''links''
                      (filter (\<lambda>l. column ''source'' l
                                     \<notin> set (map (column ''id'') (filter (orphaned ls) ps))) ls)
                      (store_named ''pages'' (filter (\<lambda>p. \<not> orphaned ls p) ps) t))))"

text \<open>
  Modelled from the spec: the number that a row of the pages table holds as its id, and
  \<open>0\<close> when it holds none.
\<close>

definition page_id_int :: "row \<Rightarrow> int" where
  "page_id_int p = (case column ''id'' p of Integer i \<Rightarrow> i | Null \<Rightarrow> 0 | Text s \<Rightarrow> 0)"

text \<open>
  Modelled from the spec: a new page id, one more than the largest in the table and at
  least \<open>1\<close>, so that it is not the root sentinel's.
\<close>

definition new_page_id :: "table \<Rightarrow> int" where
  "new_page_id ps = 1 + fold max (map page_id_int ps) 0"

text \<open>Modelled from the spec: the row of a placeholder page.\<close>

definition placeholder_row :: "int \<Rightarrow> string \<Rightarrow> row" where
  "placeholder_row pid name =
     [(''id'', Integer pid), (''name'', Text name), (''is_link_placeholder'', Integer 1)]"

text \<open>
  Modelled from the spec: \<^verbatim>\<open>PagesIndexer.insert_link_placeholder\<close> is in the pages
  module. By the spec it inserts a placeholder page and returns its new page id.
\<close>

definition insert_link_placeholder :: "string \<Rightarrow> tables \<Rightarrow> error + sqlval \<times> tables" where
  "insert_link_placeholder name t =
     (case named t ''pages'' of
        None \<Rightarrow> Inl OperationalError
      | Some ps \<Rightarrow>
          Inr (Integer (new_page_id ps),
               store_named ''pages'' (ps @ [placeholder_row (new_page_id ps) name]) t))"

definition db_call :: "(tables \<Rightarrow> error + 'a \<times> tables) \<Rightarrow> index \<Rightarrow> 'a result" where
  "db_call f idx =
     (if is_database (priv_db idx)
      then (case f (working (priv_db idx)) of
              Inl e \<Rightarrow> (Inl e, idx)
            | Inr (a, t) \<Rightarrow> (Inr a, set_working t idx))
      else (Inl DatabaseError, idx))"

definition anchor_row :: "collab \<Rightarrow> sqlval \<Rightarrow> string \<Rightarrow> row" where
  "anchor_row c pid name =
     [(''source'', ROOT_ID), (''target'', pid), (''rel'', HREF_REL_ABSOLUTE c),
      (''names'', Text name)]"

text \<open>The branch \<^verbatim>\<open>if row is None:\<close> of \<^verbatim>\<open>touch_current_page_placeholder\<close>.\<close>

definition touch_if_needed :: "collab \<Rightarrow> string \<Rightarrow> index \<Rightarrow> unit result" where
  "touch_if_needed c name idx =
     (case db_call (insert_link_placeholder name) idx of
        (Inl e, i) \<Rightarrow> (Inl e, i)
      | (Inr pid, i) \<Rightarrow> db_execute (insert_into ''links'' (anchor_row c pid name)) i)"

text \<open>\<^verbatim>\<open>touch_current_page_placeholder\<close>; a path is given by its name.\<close>

definition touch_current_page_placeholder :: "collab \<Rightarrow> string \<Rightarrow> index \<Rightarrow> unit result" where
  "touch_current_page_placeholder c name idx =
     with_lock (\<lambda>i.
       case db_execute (delete_where ''links'' ''source'' ROOT_ID) i of
         (Inl e, i1) \<Rightarrow> (Inl e, i1)
       | (Inr u, i1) \<Rightarrow>
           (case db_execute cleanup_placeholders i1 of
              (Inl e, i2) \<Rightarrow> (Inl e, i2)
            | (Inr u, i2) \<Rightarrow>
                (case query (select_where ''pages'' ''name'' (Text name)) (priv_db i2) of
                   Inl e \<Rightarrow> (Inl e, i2)
                 | Inr rows \<Rightarrow>
                     (case (if fetchone rows = None then touch_if_needed c name i2
                            else (Inr (), i2)) of
                        (Inl e, i3) \<Rightarrow> (Inl e, i3)
                      | (Inr u, i3) \<Rightarrow>
                          (Inr (), record_event (Emit ''Index'' ''changed'') (db_commit i3)))))) idx"

text \<open>
  The anchors are the link rows whose source is the root sentinel. A page name survives
  a cleanup when one of its rows is not orphaned among the links that are not anchors:
  the page has content, or a page links to it.
\<close>

definition anchors :: "tables \<Rightarrow> table" where
  "anchors t = filter (matches ''source'' ROOT_ID) (links_of t)"

definition pages_named :: "string \<Rightarrow> tables \<Rightarrow> table" where
  "pages_named name t = filter (matches ''name'' (Text name)) (pages_of t)"

definition survives :: "string \<Rightarrow> tables \<Rightarrow> bool" where
  "survives name t \<longleftrightarrow>
     list_ex (\<lambda>p. \<not> orphaned (filter (\<lambda>l. \<not> matches ''source'' ROOT_ID l) (links_of t)) p)
       (pages_named name t)"

definition real_content :: "string \<Rightarrow> tables \<Rightarrow> bool" where
  "real_content name t \<longleftrightarrow> list_ex (\<lambda>p. \<not> is_placeholder p) (pages_named name t)"

text \<open>
  A notebook with one page of content, \<open>Home\<close>, that links to a page \<open>Plans\<close>
  which has not been written yet.
\<close>

definition linked_tables :: tables where
  "linked_tables =
     [(''zim_index'', [[(''key'', Text ''db_version''), (''value'', Text ''0.7'')]]),
      (''pages'',
       [[(''id'', Integer 1), (''name'', Text ''Home''), (''is_link_placeholder'', Integer 0)],
        [(''id'', Integer 2), (''name'', Text ''Plans''), (''is_link_placeholder'', Integer 1)]]),
      (''links'',
       [[(''source'', Integer 1), (''target'', Integer 2), (''rel'', Integer 0),
         (''names'', Text ''Plans'')]])]"

definition linked_index :: index where
  "linked_index =
     \<lparr>dbpath = '':memory:'',
      priv_db = \<lparr>is_database = True, committed = linked_tables, working = linked_tables\<rparr>,
      disk = Map.empty,
      trace = []\<rparr>"

text \<open>
  What the cleanup of \<^verbatim>\<open>touch_current_page_placeholder\<close> leaves of the pages and
  of the links: the anchors are deleted, then the orphaned pages and the links that
  start from them.
\<close>

definition cleaned_pages :: "tables \<Rightarrow> table" where
  "cleaned_pages t =
     filter (\<lambda>p. \<not> orphaned (filter (\<lambda>l. \<not> matches ''source'' ROOT_ID l) (links_of t)) p)
       (pages_of t)"

definition cleaned_links :: "tables \<Rightarrow> table" where
  "cleaned_links t =
     filter (\<lambda>l. column ''source'' l \<notin> set (map (column ''id'')
         (filter (orphaned (filter (\<lambda>l. \<not> matches ''source'' ROOT_ID l) (links_of t)))
            (pages_of t))))
       (filter (\<lambda>l. \<not> matches ''source'' ROOT_ID l) (links_of t))"

section \<open>Properties of names and rows\<close>

lemma lower_code_simps:
  "lower_code CHR ''a'' = 97"
  "lower_code CHR ''b'' = 98"
  "lower_code CHR ''c'' = 99"
  "lower_code CHR ''d'' = 100"
  "lower_code CHR ''e'' = 101"
  "lower_code CHR ''f'' = 102"
  "lower_code CHR ''g'' = 103"
  "lower_code CHR ''h'' = 104"
  "lower_code CHR ''i'' = 105"
  "lower_code CHR ''j'' = 106"
  "lower_code CHR ''k'' = 107"
  "lower_code CHR ''l'' = 108"
  "lower_code CHR ''m'' = 109"
  "lower_code CHR ''n'' = 110"
  "lower_code CHR ''o'' = 111"
  "lower_code CHR ''p'' = 112"
  "lower_code CHR ''q'' = 113"
  "lower_code CHR ''r'' = 114"
  "lower_code CHR ''s'' = 115"
  "lower_code CHR ''t'' = 116"
  "lower_code CHR ''u'' = 117"
  "lower_code CHR ''v'' = 118"
  "lower_code CHR ''w'' = 119"
  "lower_code CHR ''x'' = 120"
  "lower_code CHR ''y'' = 121"
  "lower_code CHR ''z'' = 122"
  "lower_code CHR ''_'' = 95"
  by (simp_all add: lower_code_def)

lemma same_name_refl [simp]: "same_name a a"
  by (simp add: same_name_def)

lemma named_store_same [simp]: "named (store_named k v t) k = Some v"
  by (induction t) auto

lemma named_store_other [simp]:
  "\<not> same_name k k' \<Longrightarrow> named (store_named k v t) k' = named t k'"
  by (induction t) (auto simp: same_name_def)

lemma key_not_value [simp]: "\<not> same_name ''key'' ''value''"
  by (simp add: same_name_def)

lemma column_property_row [simp]:
  "column ''key'' [(''key'', a), (''value'', b)] = a"
  "column ''value'' [(''key'', a), (''value'', b)] = b"
  by (simp_all add: column_def)

lemma text_affinity_Null [simp]: "text_affinity v = Null \<longleftrightarrow> v = Null"
  by (cases v) simp_all

lemma filter_not_matches_none [simp]:
  "filter (matches c v) (filter (\<lambda>r. \<not> matches c v r) rows) = []"
  by (induction rows) auto

lemma filter_matches_other:
  "v \<noteq> w \<Longrightarrow>
   filter (\<lambda>r. \<not> matches c v r \<and> matches c w r) rows = filter (matches c w) rows"
  by (induction rows) (auto simp: matches_def)

lemma bindable_text [simp]: "bindable (Text s)" "bindable Null"
  by (simp_all add: bindable_def)

lemma get_unbindable: "\<not> bindable k \<Longrightarrow> get_property k idx = Inl OverflowError"
  by (simp add: get_property_def)

lemma get_after_upsert:
  assumes tbl: "has_table ''zim_index'' idx" and k: "k \<noteq> Null" and v: "v \<noteq> Null"
    and bk: "bindable k" and bv: "bindable v"
  shows "\<exists>idx'. set_property k v idx = (Inr (), idx') \<and>
           get_property k idx' = Inr (text_affinity v) \<and>
           (\<forall>k'. text_affinity k' \<noteq> text_affinity k \<longrightarrow>
                 get_property k' idx' = get_property k' idx)"
proof -
  from tbl obtain rows where db: "is_database (priv_db idx)"
    and rows: "named (working (priv_db idx)) ''zim_index'' = Some rows"
    by (auto simp: has_table_def)
  let ?row = "[(''key'', text_affinity k), (''value'', text_affinity v)]"
  let ?rows = "filter (\<lambda>r'. \<not> matches ''key'' (text_affinity k) r') rows @ [?row]"
  let ?t = "store_named ''zim_index'' ?rows (working (priv_db idx))"
  let ?idx' = "record_event Release
                 ((record_event Acquire idx)\<lparr>priv_db := (priv_db idx)\<lparr>working := ?t\<rparr>\<rparr>)"
  have set: "set_property k v idx = (Inr (), ?idx')"
    using db rows v bk bv
    by (simp add: set_property_def with_lock_def db_execute_def execute_def
        insert_or_replace_def record_event_def)
  have own: "matches ''key'' (text_affinity k) ?row"
    using k by (simp add: matches_def)
  have sel: "query (select_where ''zim_index'' ''key'' w) (priv_db ?idx') =
               Inr (filter (matches ''key'' w) ?rows)" for w
    using db by (simp add: query_def select_where_def record_event_def)
  have get: "get_property k ?idx' = Inr (text_affinity v)"
    using own bk by (simp add: get_property_def sel fetchone_def)
  have other: "get_property k' ?idx' = get_property k' idx"
    if "text_affinity k' \<noteq> text_affinity k" for k'
  proof (cases "bindable k'")
    case False
    then show ?thesis by (simp add: get_unbindable)
  next
    case True
    from that have "\<not> matches ''key'' (text_affinity k') ?row"
      by (auto simp: matches_def)
    with that have "filter (matches ''key'' (text_affinity k')) ?rows =
        filter (matches ''key'' (text_affinity k')) rows"
      by (simp add: filter_matches_other)
    then show ?thesis
      using db rows True
      by (simp add: get_property_def sel) (simp add: query_def select_where_def)
  qed
  from set get other show ?thesis by blast
qed

lemma get_after_delete:
  assumes tbl: "has_table ''zim_index'' idx" and bk: "bindable k"
  shows "\<exists>idx'. set_property k Null idx = (Inr (), idx') \<and>
           get_property k idx' = Inr Null \<and>
           (\<forall>k'. text_affinity k' \<noteq> text_affinity k \<longrightarrow>
                 get_property k' idx' = get_property k' idx)"
proof -
  from tbl obtain rows where db: "is_database (priv_db idx)"
    and rows: "named (working (priv_db idx)) ''zim_index'' = Some rows"
    by (auto simp: has_table_def)
  let ?rows = "filter (\<lambda>r'. \<not> matches ''key'' (text_affinity k) r') rows"
  let ?t = "store_named ''zim_index'' ?rows (working (priv_db idx))"
  let ?idx' = "record_event Release
                 ((record_event Acquire idx)\<lparr>priv_db := (priv_db idx)\<lparr>working := ?t\<rparr>\<rparr>)"
  have set: "set_property k Null idx = (Inr (), ?idx')"
    using db rows bk
    by (simp add: set_property_def with_lock_def db_execute_def execute_def
        delete_where_def record_event_def)
  have sel: "query (select_where ''zim_index'' ''key'' w) (priv_db ?idx') =
               Inr (filter (matches ''key'' w) ?rows)" for w
    using db by (simp add: query_def select_where_def record_event_def)
  have get: "get_property k ?idx' = Inr Null"
    using bk by (simp add: get_property_def sel fetchone_def)
  have other: "get_property k' ?idx' = get_property k' idx"
    if "text_affinity k' \<noteq> text_affinity k" for k'
  proof (cases "bindable k'")
    case False
    then show ?thesis by (simp add: get_unbindable)
  next
    case True
    with that db rows show ?thesis
      by (simp add: get_property_def sel filter_matches_other)
        (simp add: query_def select_where_def)
  qed
  from set get other show ?thesis by blast
qed

lemmas property_defs =
  set_property_def get_property_def with_lock_def db_execute_def execute_def
  insert_or_replace_def delete_where_def query_def select_where_def fetchone_def
  record_event_def matches_def column_def same_name_def lower_code_simps
  bindable_def show_int_def example_index_def example_tables_def

text \<open>
  Claim C7, as stated, fails. The columns of the property table are declared
  \<^verbatim>\<open>TEXT\<close>, so the integer \<open>5\<close> stored under a key is read back as the string
  \<^verbatim>\<open>'5'\<close>, which is not the value that was set. A value stored under the key
  \<^verbatim>\<open>None\<close> is not found again, as no row matches \<^verbatim>\<open>key=?\<close> for it:
  \<^verbatim>\<open>get_property\<close> returns \<^verbatim>\<open>None\<close>.
\<close>

theorem round_trip_counterexample:
  "fst (set_property (Text ''width'') (Integer 5) example_index) = Inr () \<and>
   get_property (Text ''width'')
     (snd (set_property (Text ''width'') (Integer 5) example_index)) = Inr (Text ''5'') \<and>
   get_property (Text ''width'')
     (snd (set_property (Text ''width'') (Integer 5) example_index)) \<noteq> Inr (Integer 5) \<and>
   fst (set_property Null (Text ''v'') example_index) = Inr () \<and>
   get_property Null (snd (set_property Null (Text ''v'') example_index)) = Inr Null"
  by (simp add: property_defs)

text \<open>
  Claim C7, amended. On an index whose property table exists, for every key \<open>k\<close>
  other than \<^verbatim>\<open>None\<close> and every value \<open>v\<close> other than \<^verbatim>\<open>None\<close>, integers
  being of 64 bits: \<^verbatim>\<open>set_property(k, v)\<close> returns normally, whatever rows the table
  held for \<open>k\<close>, and \<^verbatim>\<open>get_property(k)\<close> then returns \<open>v\<close> as the column
  stores it, which is \<open>v\<close> itself for a string and the decimal text for an integer.
  \<^verbatim>\<open>set_property(k, None)\<close> returns normally and \<^verbatim>\<open>get_property(k)\<close> then
  returns \<^verbatim>\<open>None\<close>. Either call leaves what \<^verbatim>\<open>get_property\<close> returns
  for every other key as it was.
\<close>

theorem set_get_property_round_trip:
  assumes "has_table ''zim_index'' idx" and "bindable k"
  shows "(k \<noteq> Null \<and> v \<noteq> Null \<and> bindable v \<longrightarrow>
          (\<exists>idx'. set_property k v idx = (Inr (), idx') \<and>
                  get_property k idx' = Inr (text_affinity v) \<and>
                  (\<forall>s. v = Text s \<longrightarrow> get_property k idx' = Inr v) \<and>
                  (\<forall>k'. text_affinity k' \<noteq> text_affinity k \<longrightarrow>
                        get_property k' idx' = get_property k' idx))) \<and>
         (\<exists>idx'. set_property k Null idx = (Inr (), idx') \<and>
                 get_property k idx' = Inr Null \<and>
                 (\<forall>k'. text_affinity k' \<noteq> text_affinity k \<longrightarrow>
                       get_property k' idx' = get_property k' idx))"
proof -
  have "\<exists>idx'. set_property k v idx = (Inr (), idx') \<and>
          get_property k idx' = Inr (text_affinity v) \<and>
          (\<forall>s. v = Text s \<longrightarrow> get_property k idx' = Inr v) \<and>
          (\<forall>k'. text_affinity k' \<noteq> text_affinity k \<longrightarrow>
                get_property k' idx' = get_property k' idx)"
    if "k \<noteq> Null" "v \<noteq> Null" "bindable v"
  proof -
    from get_after_upsert [OF assms(1) that(1,2) assms(2) that(3)] obtain idx' where
      "set_property k v idx = (Inr (), idx')" "get_property k idx' = Inr (text_affinity v)"
      "\<forall>k'. text_affinity k' \<noteq> text_affinity k \<longrightarrow> get_property k' idx' = get_property k' idx"
      by blast
    then show ?thesis by auto
  qed
  with get_after_delete [OF assms] show ?thesis by blast
qed

theorem set_get_property_round_trip_witness:
  "has_table ''zim_index'' example_index \<and> bindable (Text ''db_version'') \<and>
   Text ''db_version'' \<noteq> Null \<and> Text ''0.8'' \<noteq> Null \<and> bindable (Text ''0.8'') \<and>
   (\<exists>idx'. set_property (Text ''db_version'') (Text ''0.8'') example_index = (Inr (), idx') \<and>
           get_property (Text ''db_version'') idx' = Inr (Text ''0.8'') \<and>
           get_property (Text ''locale'') idx' = get_property (Text ''locale'') example_index) \<and>
   (\<exists>idx'. set_property (Text ''db_version'') Null example_index = (Inr (), idx') \<and>
           get_property (Text ''db_version'') idx' = Inr Null)"
proof -
  have h: "has_table ''zim_index'' example_index"
    by (simp add: has_table_def example_index_def example_tables_def same_name_def)
  have b: "bindable (Text ''db_version'')" by simp
  have o: "text_affinity (Text ''locale'') \<noteq> text_affinity (Text ''db_version'')" by simp
  from set_get_property_round_trip [OF h b, of "Text ''0.8''"] o h show ?thesis
    by auto
qed


section \<open>Properties of the update iterator\<close>

lemmas example_defs =
  check_and_update_iter_def example_collab_def example_index_def example_tables_def
  numeral_3_eq_3 flag_path_def map_rows_def flagged_def column_def same_name_def
  lower_code_simps record_event_def
  set_working_def emit_commit_def on_commit_def db_commit_def commit_def

lemma uncommitted_refl: "uncommitted idx idx"
  by (simp add: uncommitted_def)

lemma uncommitted_trans: "uncommitted a b \<Longrightarrow> uncommitted b c \<Longrightarrow> uncommitted a c"
  by (auto simp: uncommitted_def)

lemma uncommitted_event:
  "e \<noteq> Commit \<Longrightarrow> e \<noteq> Emit ''IndexUpdateIter'' ''commit'' \<Longrightarrow> uncommitted idx (record_event e idx)"
  by (simp add: uncommitted_def record_event_def)

lemma uncommitted_pull:
  "e \<noteq> Commit \<Longrightarrow> e \<noteq> Emit ''IndexUpdateIter'' ''commit'' \<Longrightarrow>
   uncommitted idx (record_event Yield (record_event e (set_working t idx)))"
  by (simp add: uncommitted_def record_event_def set_working_def)

lemma update_loop_uncommitted:
  fixes g :: "unit gen" and s :: "unit gen_step"
  shows "uncommitted idx (snd (update_loop g idx)) \<and>
         (\<forall>y\<in>set (fst (update_loop g idx)). uncommitted idx y)"
    and "uncommitted idx (snd (update_loop_step s idx)) \<and>
         (\<forall>y\<in>set (fst (update_loop_step s idx)). uncommitted idx y)"
proof (induction g and s arbitrary: idx and idx)
  case (Gen f)
  have "f (working (priv_db idx)) \<in> range f" by (rule rangeI)
  from Gen.IH [OF this, of idx] show ?case by simp
next
  case (Stop t)
  show ?case
    by (simp add: uncommitted_def record_event_def set_working_def)
next
  case (Item i t g)
  let ?i1 = "record_event Yield (record_event (Update_next True) (set_working t idx))"
  have a: "uncommitted idx ?i1" by (simp add: uncommitted_pull)
  from Item.IH [of ?i1] a show ?case
    by (auto simp: Let_def case_prod_beta intro: uncommitted_trans)
qed

lemma update_loop_trace:
  fixes g :: "unit gen" and s :: "unit gen_step"
  shows "\<exists>n. trace (snd (update_loop g idx)) =
               trace idx @ concat (replicate n [Update_next True, Yield]) @ [Update_next False] \<and>
             length (fst (update_loop g idx)) = n"
    and "\<exists>n. trace (snd (update_loop_step s idx)) =
               trace idx @ concat (replicate n [Update_next True, Yield]) @ [Update_next False] \<and>
             length (fst (update_loop_step s idx)) = n"
proof (induction g and s arbitrary: idx and idx)
  case (Gen f)
  have "f (working (priv_db idx)) \<in> range f" by (rule rangeI)
  from Gen.IH [OF this, of idx] show ?case by simp
next
  case (Stop t)
  show ?case
    by (simp add: record_event_def set_working_def)
next
  case (Item i t g)
  let ?i1 = "record_event Yield (record_event (Update_next True) (set_working t idx))"
  from Item.IH [of ?i1] obtain n where
    n: "trace (snd (update_loop g ?i1)) =
          trace ?i1 @ concat (replicate n [Update_next True, Yield]) @ [Update_next False]"
       "length (fst (update_loop g ?i1)) = n"
    by blast
  have t1: "trace ?i1 = trace idx @ [Update_next True, Yield]"
    by (simp add: record_event_def set_working_def)
  have "trace (snd (update_loop_step (Item i t g) idx)) =
          trace idx @ concat (replicate (Suc n) [Update_next True, Yield]) @ [Update_next False] \<and>
        length (fst (update_loop_step (Item i t g) idx)) = Suc n"
    using n t1 by (simp add: Let_def case_prod_beta)
  then show ?case by blast
qed


lemma check_loop_uncommitted:
  fixes g :: "bool gen" and s :: "bool gen_step"
  shows "uncommitted idx (snd (check_loop g upd idx)) \<and>
         (\<forall>y\<in>set (fst (check_loop g upd idx)). uncommitted idx y)"
    and "uncommitted idx (snd (check_loop_step s upd idx)) \<and>
         (\<forall>y\<in>set (fst (check_loop_step s upd idx)). uncommitted idx y)"
proof (induction g and s arbitrary: idx and idx)
  case (Gen f)
  have "f (working (priv_db idx)) \<in> range f" by (rule rangeI)
  from Gen.IH [OF this, of idx] show ?case by simp
next
  case (Stop t)
  show ?case
    by (simp add: uncommitted_def record_event_def set_working_def)
next
  case (Item b t g)
  let ?i1 = "record_event Yield (record_event (Check_next (Some b)) (set_working t idx))"
  let ?u = "if b then update_loop upd (record_event Update_iter ?i1) else ([], ?i1)"
  have a: "uncommitted idx ?i1" by (simp add: uncommitted_pull)
  have "uncommitted ?i1 (record_event Update_iter ?i1)" by (simp add: uncommitted_event)
  with update_loop_uncommitted(1) [of "record_event Update_iter ?i1" upd]
  have "uncommitted ?i1 (snd ?u) \<and> (\<forall>y\<in>set (fst ?u). uncommitted ?i1 y)"
    by (auto intro: uncommitted_trans uncommitted_refl)
  with a have u: "uncommitted idx (snd ?u)" "\<forall>y\<in>set (fst ?u). uncommitted idx y"
    by (blast intro: uncommitted_trans)+
  from Item.IH [of "snd ?u"] u(1)
  have g: "uncommitted idx (snd (check_loop g upd (snd ?u)))"
    "\<forall>y\<in>set (fst (check_loop g upd (snd ?u))). uncommitted idx y"
    by (blast intro: uncommitted_trans)+
  have "check_loop_step (Item b t g) upd idx =
          (?i1 # fst ?u @ fst (check_loop g upd (snd ?u)), snd (check_loop g upd (snd ?u)))"
    by (simp add: Let_def case_prod_beta)
  with a u g show ?case by auto
qed

lemma count_yield_pulls [simp]:
  "count_list (concat (replicate n [Update_next True, Yield])) Yield = n"
  by (induction n) simp_all

lemma count_yield_update_pass [simp]: "count_list (update_pass n) Yield = n"
  by (simp add: update_pass_def)

lemma check_loop_trace:
  fixes g :: "bool gen" and s :: "bool gen_step"
  shows "\<exists>items. trace (snd (check_loop g upd idx)) = trace idx @ interleaved items \<and>
           length (fst (check_loop g upd idx)) = count_list (interleaved items) Yield"
    and "\<exists>items. trace (snd (check_loop_step s upd idx)) = trace idx @ interleaved items \<and>
           length (fst (check_loop_step s upd idx)) = count_list (interleaved items) Yield"
proof (induction g and s arbitrary: idx and idx)
  case (Gen f)
  have "f (working (priv_db idx)) \<in> range f" by (rule rangeI)
  from Gen.IH [OF this, of idx] show ?case by simp
next
  case (Stop t)
  have "trace (snd (check_loop_step (Stop t) upd idx)) = trace idx @ interleaved [] \<and>
        length (fst (check_loop_step (Stop t) upd idx)) = count_list (interleaved []) Yield"
    by (simp add: record_event_def set_working_def interleaved_def)
  then show ?case by blast
next
  case (Item b t g)
  let ?i1 = "record_event Yield (record_event (Check_next (Some b)) (set_working t idx))"
  let ?u = "if b then update_loop upd (record_event Update_iter ?i1) else ([], ?i1)"
  have t1: "trace ?i1 = trace idx @ [Check_next (Some b), Yield]"
    by (simp add: record_event_def set_working_def)
  have "\<exists>item. trace (snd ?u) = trace idx @ item_events item \<and>
          Suc (length (fst ?u)) = count_list (item_events item) Yield"
  proof (cases b)
    case True
    from update_loop_trace(1) [of upd "record_event Update_iter ?i1"] obtain n where
      n: "trace (snd (update_loop upd (record_event Update_iter ?i1))) =
         trace (record_event Update_iter ?i1) @
         concat (replicate n [Update_next True, Yield]) @ [Update_next False]"
      "length (fst (update_loop upd (record_event Update_iter ?i1))) = n"
      by blast
    have "trace (record_event Update_iter ?i1) = trace idx @ [Check_next (Some True), Yield, Update_iter]"
      using True by (simp add: record_event_def set_working_def)
    with n(1) True have "trace (snd ?u) = trace idx @ item_events (Some n)"
      by (simp add: update_pass_def)
    moreover from n(2) True have "Suc (length (fst ?u)) = count_list (item_events (Some n)) Yield"
      by simp
    ultimately show ?thesis by blast
  next
    case False
    with t1 have "trace (snd ?u) = trace idx @ item_events None \<and>
        Suc (length (fst ?u)) = count_list (item_events None) Yield"
      by simp
    then show ?thesis by blast
  qed
  then obtain item where item: "trace (snd ?u) = trace idx @ item_events item"
    "Suc (length (fst ?u)) = count_list (item_events item) Yield" by blast
  from Item.IH [of "snd ?u"] obtain items where
    items: "trace (snd (check_loop g upd (snd ?u))) = trace (snd ?u) @ interleaved items"
      "length (fst (check_loop g upd (snd ?u))) = count_list (interleaved items) Yield"
    by blast
  have run: "check_loop_step (Item b t g) upd idx =
          (?i1 # fst ?u @ fst (check_loop g upd (snd ?u)), snd (check_loop g upd (snd ?u)))"
    by (simp add: Let_def case_prod_beta)
  have "trace (snd (check_loop_step (Item b t g) upd idx)) = trace idx @ interleaved (item # items)"
    using items(1) item(1) by (simp only: run snd_conv) (simp add: interleaved_def)
  moreover have "length (fst (check_loop_step (Item b t g) upd idx)) =
      count_list (interleaved (item # items)) Yield"
    using items(2) item(2) by (simp only: run fst_conv) (simp add: interleaved_def)
  ultimately show ?case by blast
qed

lemma commit_not_in_item_events:
  "Commit \<notin> set (item_events item) \<and> Emit a b \<notin> set (item_events item)"
  by (cases item) (auto simp: update_pass_def)

lemma commit_not_in_interleaved:
  "Commit \<notin> set (interleaved items) \<and> Emit a b \<notin> set (interleaved items)"
  by (auto simp: interleaved_def commit_not_in_item_events)

lemma uncommitted_new_events:
  "uncommitted idx s \<Longrightarrow>
     Commit \<notin> set (new_events idx s) \<and> Emit ''IndexUpdateIter'' ''commit'' \<notin> set (new_events idx s)"
  by (auto simp: uncommitted_def new_events_def)

lemma pulled_cases:
  "k \<le> length ys \<Longrightarrow> pulled k idx (ys, idx') = idx \<or> pulled k idx (ys, idx') \<in> set ys"
  by (cases k) (auto simp: pulled_def)

lemma trace_finalize:
  "trace (emit_commit (db_commit i)) =
     trace i @ [Commit, Emit ''IndexUpdateIter'' ''commit'', Emit ''Index'' ''changed'']"
  by (simp add: emit_commit_def on_commit_def db_commit_def record_event_def)

lemma committed_finalize:
  "committed (priv_db (emit_commit (db_commit i))) = working (priv_db (emit_commit (db_commit i)))"
  by (simp add: emit_commit_def on_commit_def db_commit_def record_event_def commit_def)

text \<open>
  Claim C1. In every run of \<^verbatim>\<open>check_and_update_iter\<close> the events end with the
  one commit, the iterator's \<^verbatim>\<open>commit\<close> signal and the \<^verbatim>\<open>changed\<close> signal of
  the handler connected to it; no commit and no \<^verbatim>\<open>commit\<close> signal comes before,
  and every marker does, whatever the checker found. The run ends with nothing left
  uncommitted. A caller that stops after \<open>k\<close> pulls that each gave a marker leaves
  the committed store and the file on disk as they were before the call, with no commit
  and no \<^verbatim>\<open>commit\<close> signal among the events.
\<close>

theorem commit_once_at_end:
  assumes run: "check_and_update_iter c file idx = (ys, idx')"
    and k: "k \<le> length ys"
  shows "(\<exists>evs. trace idx' =
                 trace idx @ evs @
                 [Commit, Emit ''IndexUpdateIter'' ''commit'', Emit ''Index'' ''changed''] \<and>
               Commit \<notin> set evs \<and> Emit ''IndexUpdateIter'' ''commit'' \<notin> set evs \<and>
               count_list evs Yield = length ys) \<and>
         committed (priv_db idx') = working (priv_db idx') \<and>
         committed (priv_db (pulled k idx (ys, idx'))) = committed (priv_db idx) \<and>
         disk (pulled k idx (ys, idx')) = disk idx \<and>
         Commit \<notin> set (new_events idx (pulled k idx (ys, idx'))) \<and>
         Emit ''IndexUpdateIter'' ''commit'' \<notin> set (new_events idx (pulled k idx (ys, idx')))"
proof -
  let ?loop = "check_loop (check_iter c file) (files_update_iter c) idx"
  from run have ys: "ys = fst ?loop" and idx': "idx' = emit_commit (db_commit (snd ?loop))"
    by (auto simp: check_and_update_iter_def case_prod_beta)
  from check_loop_trace(1) [of "check_iter c file" "files_update_iter c" idx]
  obtain items where items: "trace (snd ?loop) = trace idx @ interleaved items"
    "length (fst ?loop) = count_list (interleaved items) Yield"
    by blast
  have "trace idx' = trace idx @ interleaved items @
          [Commit, Emit ''IndexUpdateIter'' ''commit'', Emit ''Index'' ''changed''] \<and>
        Commit \<notin> set (interleaved items) \<and>
        Emit ''IndexUpdateIter'' ''commit'' \<notin> set (interleaved items) \<and>
        count_list (interleaved items) Yield = length ys"
    using items ys idx' by (simp add: trace_finalize commit_not_in_interleaved)
  then have end_: "\<exists>evs. trace idx' =
                 trace idx @ evs @
                 [Commit, Emit ''IndexUpdateIter'' ''commit'', Emit ''Index'' ''changed''] \<and>
               Commit \<notin> set evs \<and> Emit ''IndexUpdateIter'' ''commit'' \<notin> set evs \<and>
               count_list evs Yield = length ys"
    by blast
  have fin: "committed (priv_db idx') = working (priv_db idx')"
    using idx' by (simp add: committed_finalize)
  from check_loop_uncommitted(1) [of idx "check_iter c file" "files_update_iter c"] ys
  have "\<forall>y\<in>set ys. uncommitted idx y" by simp
  with pulled_cases [OF k, of idx idx'] have "uncommitted idx (pulled k idx (ys, idx'))"
    by (auto intro: uncommitted_refl)
  then have susp: "committed (priv_db (pulled k idx (ys, idx'))) = committed (priv_db idx) \<and>
         disk (pulled k idx (ys, idx')) = disk idx \<and>
         Commit \<notin> set (new_events idx (pulled k idx (ys, idx'))) \<and>
         Emit ''IndexUpdateIter'' ''commit'' \<notin> set (new_events idx (pulled k idx (ys, idx')))"
    using uncommitted_new_events by (simp add: uncommitted_def)
  from end_ fin susp show ?thesis by blast
qed

theorem commit_once_at_end_witness:
  "(\<exists>evs. trace (snd (check_and_update_iter (example_collab [(''a.txt'', False), (''b.txt'', False)])
                         None example_index)) =
            trace example_index @ evs @
            [Commit, Emit ''IndexUpdateIter'' ''commit'', Emit ''Index'' ''changed''] \<and>
          Commit \<notin> set evs \<and> Emit ''IndexUpdateIter'' ''commit'' \<notin> set evs \<and>
          count_list evs Yield = 2) \<and>
   committed (priv_db (pulled 1 example_index
       (check_and_update_iter (example_collab [(''a.txt'', False), (''b.txt'', False)])
          None example_index))) = example_tables"
proof -
  let ?c = "example_collab [(''a.txt'', False), (''b.txt'', False)]"
  let ?run = "check_and_update_iter ?c None example_index"
  have run: "?run = (fst ?run, snd ?run)" by simp
  have len: "length (fst ?run) = 2" by (simp add: example_defs)
  then have k: "1 \<le> length (fst ?run)" by simp
  have "committed (priv_db example_index) = example_tables" by (simp add: example_index_def)
  with commit_once_at_end [OF run k] len show ?thesis by simp
qed

text \<open>
  Claim C2, as stated, fails. With a checker that reports two files out of date, the
  first update pass starts after the first boolean and before the second is pulled, and
  a second pass follows the second boolean: the events are not those of a check phase
  followed by at most one update pass.
\<close>

theorem two_phase_counterexample:
  "trace (snd (check_and_update_iter (example_collab [(''a.txt'', True), (''b.txt'', True)])
                 None example_index)) =
     [Check_next (Some True), Yield, Update_iter, Update_next True, Yield, Update_next False,
      Check_next (Some True), Yield, Update_iter, Update_next True, Yield, Update_next False,
      Check_next None, Commit, Emit ''IndexUpdateIter'' ''commit'', Emit ''Index'' ''changed''] \<and>
   \<not> (\<exists>bs n. trace (snd (check_and_update_iter
                           (example_collab [(''a.txt'', True), (''b.txt'', True)])
                           None example_index)) =
              two_phase bs n @
              [Commit, Emit ''IndexUpdateIter'' ''commit'', Emit ''Index'' ''changed''])"
proof -
  let ?run = "check_and_update_iter (example_collab [(''a.txt'', True), (''b.txt'', True)])
                None example_index"
  have tr: "trace (snd ?run) =
     [Check_next (Some True), Yield, Update_iter, Update_next True, Yield, Update_next False,
      Check_next (Some True), Yield, Update_iter, Update_next True, Yield, Update_next False,
      Check_next None, Commit, Emit ''IndexUpdateIter'' ''commit'', Emit ''Index'' ''changed'']"
    by (simp add: example_defs)
  have "trace (snd ?run) \<noteq>
          two_phase bs n @ [Commit, Emit ''IndexUpdateIter'' ''commit'', Emit ''Index'' ''changed'']"
    for bs n
  proof (cases bs)
    case Nil
    then show ?thesis by (simp add: tr two_phase_def)
  next
    case (Cons b bs')
    then show ?thesis by (cases bs') (simp_all add: tr two_phase_def)
  qed
  with tr show ?thesis by blast
qed

text \<open>
  Claim C2, amended. \<^verbatim>\<open>check_and_update_iter\<close> treats the checker's items one
  after the other: it pulls an item and yields a marker for it; if the item's boolean is
  true it runs one whole update pass of the Files indexer right then, yielding a marker
  for each item updated, before it pulls the checker again. An update pass runs once for
  each true boolean and never after a false one. After the checker's last item come the
  commit and the signals. The markers yielded are those of the checker's items and of
  the update passes.
\<close>

theorem check_and_update_iter_interleaves:
  "\<exists>items.
     trace (snd (check_and_update_iter c file idx)) =
       trace idx @ interleaved items @
       [Commit, Emit ''IndexUpdateIter'' ''commit'', Emit ''Index'' ''changed''] \<and>
     length (fst (check_and_update_iter c file idx)) = count_list (interleaved items) Yield"
proof -
  from check_loop_trace(1) [of "check_iter c file" "files_update_iter c" idx]
  obtain items where
    "trace (snd (check_loop (check_iter c file) (files_update_iter c) idx)) =
       trace idx @ interleaved items"
    "length (fst (check_loop (check_iter c file) (files_update_iter c) idx)) =
       count_list (interleaved items) Yield"
    by blast
  then have "trace (snd (check_and_update_iter c file idx)) =
       trace idx @ interleaved items @
       [Commit, Emit ''IndexUpdateIter'' ''commit'', Emit ''Index'' ''changed''] \<and>
     length (fst (check_and_update_iter c file idx)) = count_list (interleaved items) Yield"
    by (simp add: check_and_update_iter_def case_prod_beta trace_finalize)
  then show ?thesis by blast
qed


section \<open>Properties of opening and resetting the cache\<close>

lemma named_remove_other:
  "\<not> same_name k k' \<Longrightarrow> named (remove_named k t) k' = named t k'"
  by (induction t) (auto simp: remove_named_def same_name_def)

lemma named_member: "(n, v) \<in> set t \<Longrightarrow> \<exists>rows. named t n = Some rows"
  by (induction t) auto

lemma named_same: "same_name d n \<Longrightarrow> named t d = named t n"
  by (induction t) (auto simp: same_name_def)

lemma remove_named_same: "same_name d n \<Longrightarrow> remove_named d t = remove_named n t"
  by (simp add: remove_named_def same_name_def)

lemma drop_table_droppable:
  "droppable target n \<Longrightarrow>
   drop_table target n t =
     (case named t n of None \<Rightarrow> Inl OperationalError | Some rows \<Rightarrow> Inr (remove_named n t))"
  by (auto simp: droppable_def drop_table_def named_same remove_named_same
      split: option.splits)

lemma drop_tables_ok:
  "is_database (priv_db idx) \<Longrightarrow> \<forall>n\<in>set names. droppable target n \<Longrightarrow>
   distinct (map (map lower_code) names) \<Longrightarrow>
   \<forall>n\<in>set names. named (working (priv_db idx)) n \<noteq> None \<Longrightarrow>
   drop_tables target names idx =
     (Inr (), set_working (filter (\<lambda>(n, rows). \<forall>m\<in>set names. \<not> same_name n m)
                             (working (priv_db idx))) idx)"
proof (induction names arbitrary: idx)
  case Nil
  then show ?case by (simp add: set_working_def)
next
  case (Cons name names)
  let ?t = "working (priv_db idx)"
  from Cons.prems(4) obtain rows where rows: "named ?t name = Some rows" by auto
  let ?i1 = "set_working (remove_named name ?t) idx"
  have step: "db_execute (drop_table target name) idx = (Inr (), ?i1)"
    using Cons.prems(1,2) rows
    by (simp add: db_execute_def execute_def drop_table_droppable set_working_def)
  have db1: "is_database (priv_db ?i1)" using Cons.prems(1) by (simp add: set_working_def)
  have w1: "working (priv_db ?i1) = remove_named name ?t"
    by (simp add: set_working_def)
  have other: "\<not> same_name name n" if "n \<in> set names" for n
    using that Cons.prems(3) by (auto simp: same_name_def)
  have found: "\<forall>n\<in>set names. named (working (priv_db ?i1)) n \<noteq> None"
    using Cons.prems(4) other by (simp add: w1 named_remove_other)
  from Cons.IH [OF db1 _ _ found] Cons.prems(2,3)
  have "drop_tables target names ?i1 =
     (Inr (), set_working (filter (\<lambda>(n, rows). \<forall>m\<in>set names. \<not> same_name n m)
                             (working (priv_db ?i1))) ?i1)"
    by simp
  moreover have "filter (\<lambda>(n, rows). \<forall>m\<in>set names. \<not> same_name n m) (remove_named name ?t) =
      filter (\<lambda>(n, rows). \<forall>m\<in>set (name # names). \<not> same_name n m) ?t"
    by (auto simp: remove_named_def case_prod_beta intro!: filter_cong)
  ultimately show ?case using step w1 by (simp add: set_working_def)
qed

lemma store_own_last:
  "named t k = None \<Longrightarrow> store_named k v (t @ [(k, w)]) = t @ [(k, v)]"
  by (induction t) (auto split: if_splits)

lemma named_append_new: "named t k = None \<Longrightarrow> named (t @ [(k, v)]) k = Some v"
  by (induction t) (auto split: if_splits)

lemma like_sqlite_same: "same_name a b \<Longrightarrow> like_sqlite a = like_sqlite b"
  by (simp add: like_sqlite_def same_name_def take_map [symmetric])

lemma named_kept:
  "\<not> like_sqlite k \<Longrightarrow> named (filter (\<lambda>(name, rows). like_sqlite name) t) k = None"
  by (induction t) (auto dest: like_sqlite_same)

lemma not_like_zim_index: "\<not> like_sqlite ''zim_index''"
  by (simp add: like_sqlite_def same_name_def lower_code_simps)

lemma db_init_ok:
  assumes db: "is_database (priv_db idx)"
    and dist: "distinct_names (working (priv_db idx))"
    and bare: "droppable_names (drop_target c) (working (priv_db idx))"
  shows "db_init c idx =
     (Inr (),
      db_commit (IndexUpdateIter_init c
        (set_working
           (filter (\<lambda>(name, rows). like_sqlite name) (working (priv_db idx)) @
            [(''zim_index'', [[(''key'', Text ''db_version''), (''value'', Text DB_VERSION)]])])
           (record_event (Log DEBUG ''(Re-)Initializing database for index'') idx))))"
proof -
  let ?t = "working (priv_db idx)"
  let ?names = "filter (\<lambda>name. \<not> like_sqlite name) (map fst ?t)"
  let ?kept = "filter (\<lambda>(name, rows). like_sqlite name) ?t"
  have q: "query select_table_names (priv_db idx) = Inr ?names"
    using db by (simp add: query_def select_table_names_def)
  have 1: "\<forall>n\<in>set ?names. droppable (drop_target c) n"
    using bare by (auto simp: droppable_names_def list_all_iff)
  have "map (\<lambda>(name, rows). map lower_code name) ?t = map (map lower_code) (map fst ?t)"
    by (simp add: case_prod_beta)
  with dist have "distinct (map (map lower_code) (map fst ?t))"
    by (simp add: distinct_names_def)
  then have 2: "distinct (map (map lower_code) ?names)"
    by (rule distinct_map_filter)
  have 3: "\<forall>n\<in>set ?names. named ?t n \<noteq> None"
    using named_member [of _ _ ?t] by fastforce
  have 4: "filter (\<lambda>(n, rows). \<forall>m\<in>set ?names. \<not> same_name n m) ?t = ?kept"
  proof (rule filter_cong [OF refl])
    fix x assume x: "x \<in> set ?t"
    obtain n rows where nr: "x = (n, rows)" by (cases x)
    show "(case x of (n, rows) \<Rightarrow> \<forall>m\<in>set ?names. \<not> same_name n m) =
          (case x of (name, rows) \<Rightarrow> like_sqlite name)"
    proof (cases "like_sqlite n")
      case True
      then show ?thesis using nr by (auto dest: like_sqlite_same)
    next
      case False
      with x nr have "n \<in> set ?names" by force
      with False show ?thesis using nr by auto
    qed
  qed
  have d: "drop_tables (drop_target c) ?names idx = (Inr (), set_working ?kept idx)"
    using drop_tables_ok [OF db 1 2 3] 4 by simp
  have none: "named ?kept ''zim_index'' = None"
    by (rule named_kept [OF not_like_zim_index])
  have stmt: "then_stmt (create_table ''zim_index'')
          (insert_into ''zim_index''
             [(''key'', Text ''db_version''), (''value'', Text DB_VERSION)]) ?kept =
        Inr (?kept @ [(''zim_index'',
               [[(''key'', Text ''db_version''), (''value'', Text DB_VERSION)]])])"
    using none
    by (simp add: then_stmt_def create_table_def insert_into_def store_own_last named_append_new)
  show ?thesis
    using db q d stmt
    by (simp add: db_init_def db_execute_def execute_def set_working_def record_event_def)
qed

lemma db_init_rebuilds:
  assumes db: "is_database (priv_db idx)"
    and dist: "distinct_names (working (priv_db idx))"
    and bare: "droppable_names (drop_target c) (working (priv_db idx))"
  shows "\<exists>idx'. db_init c idx = (Inr (), idx') \<and>
           working (priv_db idx') = rebuilt c (working (priv_db idx)) \<and>
           committed (priv_db idx') = rebuilt c (working (priv_db idx)) \<and>
           is_database (priv_db idx') \<and> dbpath idx' = dbpath idx \<and>
           trace idx' =
             trace idx @ [Log DEBUG ''(Re-)Initializing database for index'', Commit]"
  unfolding db_init_ok [OF db dist bare]
  using db
  by (simp add: db_commit_def IndexUpdateIter_init_def set_working_def record_event_def
      commit_def rebuilt_def)

lemma get_property_version:
  "is_database (priv_db idx) \<Longrightarrow>
   (get_property (Text ''db_version'') idx = Inr (Text DB_VERSION)) =
     version_current (working (priv_db idx))"
  by (auto simp: get_property_def query_def version_current_def split: sum.splits option.splits)

lemmas name_defs = same_name_def lower_code_simps

lemmas open_defs =
  Index_init_def new_connection_def sqlite3_Connection_def db_check_def db_check_try_def
  get_property_def query_def select_where_def fetchone_def column_def matches_def DB_VERSION_def
  db_init_def select_table_names_def like_sqlite_def name_defs db_execute_def execute_def
  drop_table_def droppable_def bare_identifier_def ident_char_def ident_start_def
  remove_named_def then_stmt_def create_table_def insert_into_def record_event_def
  IndexUpdateIter_init_def set_working_def db_commit_def commit_def db_recover_def getattr_db_def
  Index_attributes_def example_collab_def example_target_def example_keywords_def
  ensure_table_def
  stale_index_def stale_tables_def

text \<open>
  Names are resolved without regard to the case of ASCII letters, so the version of a
  cache whose table and columns are named in upper case is read all the same.
\<close>

lemma upper_case_names_current: "version_current upper_tables"
  by (simp add: version_current_def upper_tables_def select_where_def fetchone_def matches_def
      column_def same_name_def lower_code_def DB_VERSION_def)

text \<open>
  A table whose name needs quotes stops the rebuild: the statement that is to drop it is
  rejected, in the body of \<^verbatim>\<open>_db_check\<close> and again in its handler, and the open
  raises \<^verbatim>\<open>sqlite3.OperationalError\<close>.
\<close>

lemma unquoted_name_needed:
  "fst (Index_init (example_collab []) ''notebook/index.db''
          [''notebook/index.db'' \<mapsto> Sqlite spaced_tables]) = Inl OperationalError"
  by (simp add: open_defs spaced_tables_def)

text \<open>
  Claim C4, as stated, fails. A stale cache that holds the table
  \<^verbatim>\<open>sqlite_sequence\<close> is rebuilt at open, and the table is still there afterwards:
  \<^verbatim>\<open>_db_init\<close> drops only the tables whose names do not match \<^verbatim>\<open>sqlite%\<close>.
\<close>

theorem internal_table_kept_counterexample:
  "''sqlite_sequence'' \<in> set (map fst stale_tables) \<and>
   \<not> version_current stale_tables \<and>
   fst (Index_init (example_collab []) ''notebook/index.db''
          [''notebook/index.db'' \<mapsto> Sqlite stale_tables]) = Inr () \<and>
   map fst (working (priv_db (snd (Index_init (example_collab []) ''notebook/index.db''
          [''notebook/index.db'' \<mapsto> Sqlite stale_tables])))) =
     [''sqlite_sequence'', ''zim_index'', ''files'', ''pages'', ''links'', ''tags'']"
  by (simp add: version_current_def open_defs)

text \<open>
  Claim C4, amended. On a store whose tables to drop have names that can be written
  without quotes: if at open the stored \<^verbatim>\<open>db_version\<close> is absent or is not
  \<^verbatim>\<open>0.7\<close>, the check returns normally after a rebuild. Every table whose name does
  not match \<^verbatim>\<open>sqlite%\<close> is dropped (the others are kept), the property table is
  created anew holding \<^verbatim>\<open>db_version = 0.7\<close>, the indexer pipeline is constructed
  on the result, and the result is committed, the commit being the last event.
\<close>

theorem stale_version_rebuild:
  assumes db: "is_database (priv_db idx)"
    and dist: "distinct_names (working (priv_db idx))"
    and bare: "droppable_names (drop_target c) (working (priv_db idx))"
    and stale: "\<not> version_current (working (priv_db idx))"
  shows "\<exists>idx'. db_check c idx = (Inr (), idx') \<and>
           working (priv_db idx') = rebuilt c (working (priv_db idx)) \<and>
           committed (priv_db idx') = rebuilt c (working (priv_db idx)) \<and>
           last (trace idx') = Commit"
proof (cases "get_property (Text ''db_version'') idx")
  case (Inl e)
  then have e: "e = OperationalError"
    using db by (auto simp: get_property_def query_def select_where_def split: option.splits)
  let ?i = "record_event (Log DEBUG ''Operational error, init tabels'') idx"
  have "db_check c idx = db_init c ?i"
    using Inl e by (simp add: db_check_def db_check_try_def)
  moreover have "is_database (priv_db ?i)" "distinct_names (working (priv_db ?i))"
    "droppable_names (drop_target c) (working (priv_db ?i))"
    "working (priv_db ?i) = working (priv_db idx)"
    using db dist bare by (simp_all add: record_event_def)
  ultimately show ?thesis
    using db_init_rebuilds [of ?i c] by auto
next
  case (Inr v)
  with stale db have v: "v \<noteq> Text DB_VERSION"
    using get_property_version [of idx] by auto
  let ?i = "record_event (Log DEBUG ''Index db_version out of date'') idx"
  have i: "is_database (priv_db ?i)" "distinct_names (working (priv_db ?i))"
    "droppable_names (drop_target c) (working (priv_db ?i))"
    "working (priv_db ?i) = working (priv_db idx)"
    using db dist bare by (simp_all add: record_event_def)
  from db_init_rebuilds [OF i(1,2,3)] obtain idx' where
    idx': "db_init c ?i = (Inr (), idx')" "working (priv_db idx') = rebuilt c (working (priv_db idx))"
      "committed (priv_db idx') = rebuilt c (working (priv_db idx))"
      "trace idx' = trace ?i @ [Log DEBUG ''(Re-)Initializing database for index'', Commit]"
    using i(4) by auto
  have "db_check c idx = (Inr (), idx')"
    using Inr v idx'(1) by (simp add: db_check_def db_check_try_def)
  with idx' show ?thesis by auto
qed

theorem stale_version_rebuild_witness:
  "is_database (priv_db stale_index) \<and>
   distinct_names (working (priv_db stale_index)) \<and>
   droppable_names (drop_target (example_collab [])) (working (priv_db stale_index)) \<and>
   \<not> version_current (working (priv_db stale_index)) \<and>
   (\<exists>idx'. db_check (example_collab []) stale_index = (Inr (), idx') \<and>
           working (priv_db idx') = rebuilt (example_collab []) (working (priv_db stale_index)) \<and>
           committed (priv_db idx') = rebuilt (example_collab []) (working (priv_db stale_index)) \<and>
           last (trace idx') = Commit)"
proof -
  have 1: "is_database (priv_db stale_index)" by (simp add: stale_index_def)
  have 2: "distinct_names (working (priv_db stale_index))"
    by (simp add: stale_index_def stale_tables_def distinct_names_def lower_code_simps)
  have 3: "droppable_names (drop_target (example_collab [])) (working (priv_db stale_index))"
    by (simp add: droppable_names_def open_defs)
  have 4: "\<not> version_current (working (priv_db stale_index))"
    by (simp add: version_current_def open_defs)
  from 1 2 3 4 stale_version_rebuild [OF 1 2 3 4] show ?thesis by simp
qed

text \<open>
  Claim C3 does not hold of the code. Opening an index on a file that is no SQLite
  database logs the warning and then raises \<^verbatim>\<open>AttributeError\<close> to the caller,
  because the handler closes \<^verbatim>\<open>self.db\<close>, an attribute the class does not have:
  the file is not removed, nothing is rebuilt, and the connection is the one that could
  not be read.
\<close>

theorem corrupt_store_open_raises:
  assumes "path \<noteq> '':memory:''" and "fs path = Some Garbage"
  shows "Index_init c path fs =
           (Inl AttributeError,
            \<lparr>dbpath = path,
             priv_db = \<lparr>is_database = False, committed = [], working = []\<rparr>,
             disk = fs,
             trace = [Log WARNING (''Overwriting possibly corrupt database: '' @ path)]\<rparr>)"
  using assms
  by (simp add: Index_init_def new_connection_def sqlite3_Connection_def db_check_def
      db_check_try_def get_property_def query_def db_recover_def getattr_db_def
      Index_attributes_def record_event_def)

theorem corrupt_store_open_raises_witness:
  "''notebook/index.db'' \<noteq> '':memory:'' \<and>
   [''notebook/index.db'' \<mapsto> Garbage] ''notebook/index.db'' = Some Garbage \<and>
   Index_init (example_collab []) ''notebook/index.db'' [''notebook/index.db'' \<mapsto> Garbage] =
     (Inl AttributeError,
      \<lparr>dbpath = ''notebook/index.db'',
       priv_db = \<lparr>is_database = False, committed = [], working = []\<rparr>,
       disk = [''notebook/index.db'' \<mapsto> Garbage],
       trace = [Log WARNING ''Overwriting possibly corrupt database: notebook/index.db'']\<rparr>)"
proof -
  have 1: "''notebook/index.db'' \<noteq> '':memory:''" by simp
  have 2: "[''notebook/index.db'' \<mapsto> Garbage] ''notebook/index.db'' = Some Garbage" by simp
  from corrupt_store_open_raises
         [where path = "''notebook/index.db''" and fs = "[''notebook/index.db'' \<mapsto> Garbage]"
            and c = "example_collab []", OF 1 2]
  show ?thesis by simp
qed

text \<open>
  Claim C8. When the store is in memory and cannot be read as a database, the check
  fails the assertion and changes nothing: no warning is logged, no file is removed, and
  nothing is rebuilt. The handler fails the assertion for every in-memory index, so what
  follows the assertion runs for on-disk stores only.
\<close>

theorem memory_corruption_asserts:
  assumes "dbpath idx = '':memory:''" and "\<not> is_database (priv_db idx)"
  shows "db_check c idx = (Inl AssertionError, idx) \<and>
         db_recover c idx = (Inl AssertionError, idx)"
  using assms
  by (simp add: db_recover_def db_check_def db_check_try_def get_property_def query_def)

theorem memory_corruption_asserts_witness:
  "dbpath corrupt_memory_index = '':memory:'' \<and>
   \<not> is_database (priv_db corrupt_memory_index) \<and>
   db_check (example_collab []) corrupt_memory_index = (Inl AssertionError, corrupt_memory_index) \<and>
   db_recover (example_collab []) corrupt_memory_index = (Inl AssertionError, corrupt_memory_index)"
proof -
  have 1: "dbpath corrupt_memory_index = '':memory:''" by (simp add: corrupt_memory_index_def)
  have 2: "\<not> is_database (priv_db corrupt_memory_index)" by (simp add: corrupt_memory_index_def)
  from 1 2 memory_corruption_asserts [OF 1 2, of "example_collab []"] show ?thesis by simp
qed

text \<open>
  Claim C9, as stated, fails. \<^verbatim>\<open>flag_reindex\<close> on a cache that holds the table
  \<^verbatim>\<open>sqlite_sequence\<close> returns normally and the table is still there: the reset
  does not drop all tables.
\<close>

theorem flag_reindex_keeps_internal_counterexample:
  "''sqlite_sequence'' \<in> set (map fst (working (priv_db stale_index))) \<and>
   fst (flag_reindex (example_collab []) stale_index) = Inr () \<and>
   map fst (working (priv_db (snd (flag_reindex (example_collab []) stale_index)))) =
     [''sqlite_sequence'', ''zim_index'', ''files'', ''pages'', ''links'', ''tags'']"
  by (simp add: flag_reindex_def flush_def with_lock_def open_defs)

text \<open>
  Claim C9, amended. \<^verbatim>\<open>flag_reindex\<close> does what \<^verbatim>\<open>flush\<close> does, in every
  state, and nothing lighter. On a readable store whose tables to drop have names that
  can be written without quotes, both return normally with the cache reset and
  committed: every table whose name does not match \<^verbatim>\<open>sqlite%\<close> is dropped, the
  property table is created anew with the current version, and the pipeline is
  constructed on the result. The reset is the one of \<^verbatim>\<open>_db_init\<close> and runs between
  the acquisition and the release of the lock.
\<close>

theorem flag_reindex_is_flush:
  "flag_reindex c idx = flush c idx \<and>
   (is_database (priv_db idx) \<and> distinct_names (working (priv_db idx)) \<and>
    droppable_names (drop_target c) (working (priv_db idx)) \<longrightarrow>
    (\<exists>idx'. flag_reindex c idx = (Inr (), idx') \<and>
       working (priv_db idx') = rebuilt c (working (priv_db idx)) \<and>
       committed (priv_db idx') = rebuilt c (working (priv_db idx)) \<and>
       new_events idx idx' =
         [Log INFO ''Flushing index'', Acquire,
          Log DEBUG ''(Re-)Initializing database for index'', Commit, Release]))"
proof -
  have "\<exists>idx'. flush c idx = (Inr (), idx') \<and>
       working (priv_db idx') = rebuilt c (working (priv_db idx)) \<and>
       committed (priv_db idx') = rebuilt c (working (priv_db idx)) \<and>
       new_events idx idx' =
         [Log INFO ''Flushing index'', Acquire,
          Log DEBUG ''(Re-)Initializing database for index'', Commit, Release]"
    if db: "is_database (priv_db idx)" and dist: "distinct_names (working (priv_db idx))"
      and bare: "droppable_names (drop_target c) (working (priv_db idx))"
  proof -
    let ?i = "record_event Acquire (record_event (Log INFO ''Flushing index'') idx)"
    have i: "is_database (priv_db ?i)" "distinct_names (working (priv_db ?i))"
      "droppable_names (drop_target c) (working (priv_db ?i))"
      "working (priv_db ?i) = working (priv_db idx)"
      "trace ?i = trace idx @ [Log INFO ''Flushing index'', Acquire]"
      using db dist bare by (simp_all add: record_event_def)
    from db_init_rebuilds [OF i(1,2,3)] obtain idx' where
      idx': "db_init c ?i = (Inr (), idx')"
        "working (priv_db idx') = rebuilt c (working (priv_db idx))"
        "committed (priv_db idx') = rebuilt c (working (priv_db idx))"
        "trace idx' = trace ?i @ [Log DEBUG ''(Re-)Initializing database for index'', Commit]"
      using i(4) by auto
    have "flush c idx = (Inr (), record_event Release idx')"
      using idx'(1) by (simp add: flush_def with_lock_def)
    moreover have "new_events idx (record_event Release idx') =
        [Log INFO ''Flushing index'', Acquire,
         Log DEBUG ''(Re-)Initializing database for index'', Commit, Release]"
      using idx'(4) i(5) by (simp add: new_events_def record_event_def)
    moreover have
      "working (priv_db (record_event Release idx')) = rebuilt c (working (priv_db idx))"
      "committed (priv_db (record_event Release idx')) = rebuilt c (working (priv_db idx))"
      using idx'(2,3) by (simp_all add: record_event_def)
    ultimately show ?thesis by simp
  qed
  then show ?thesis by (simp add: flag_reindex_def)
qed

theorem flag_reindex_is_flush_witness:
  "flag_reindex (example_collab []) example_index = flush (example_collab []) example_index \<and>
   is_database (priv_db example_index) \<and>
   distinct_names (working (priv_db example_index)) \<and>
   droppable_names (drop_target (example_collab [])) (working (priv_db example_index)) \<and>
   (\<exists>idx'. flag_reindex (example_collab []) example_index = (Inr (), idx') \<and>
      working (priv_db idx') = rebuilt (example_collab []) (working (priv_db example_index)) \<and>
      committed (priv_db idx') = rebuilt (example_collab []) (working (priv_db example_index)) \<and>
      new_events example_index idx' =
        [Log INFO ''Flushing index'', Acquire,
         Log DEBUG ''(Re-)Initializing database for index'', Commit, Release])"
proof -
  have 1: "is_database (priv_db example_index)" by (simp add: example_index_def)
  have 2: "distinct_names (working (priv_db example_index))"
    by (simp add: example_index_def example_tables_def distinct_names_def lower_code_simps)
  have 3: "droppable_names (drop_target (example_collab [])) (working (priv_db example_index))"
    by (simp add: droppable_names_def example_index_def example_tables_def open_defs)
  from 1 2 3 flag_reindex_is_flush [of "example_collab []" example_index] show ?thesis
    by (simp add: flag_reindex_def)
qed


section \<open>Properties of updating one file\<close>

text \<open>
  Claim C6. When the files table has no row for the node's path and the node does not
  exist in storage, \<^verbatim>\<open>update_file\<close> returns normally and leaves the state as it
  was: the tables, the committed store and the events, so that nothing is committed and
  no signal is emitted.
\<close>

theorem update_file_noop:
  assumes "query (select_where ''files'' ''path'' (Text (relpath n))) (priv_db idx) = Inr []"
    and "\<not> node_exists n"
  shows "update_file c n idx = (Inr (), idx)"
  using assms by (simp add: update_file_def fetchone_def)

theorem update_file_noop_witness:
  "query (select_where ''files'' ''path'' (Text (relpath missing_file))) (priv_db example_index) =
     Inr [] \<and>
   \<not> node_exists missing_file \<and>
   update_file (example_collab []) missing_file example_index = (Inr (), example_index)"
proof -
  have 1: "query (select_where ''files'' ''path'' (Text (relpath missing_file)))
             (priv_db example_index) = Inr []"
    by (simp add: query_def select_where_def matches_def column_def name_defs missing_file_def
        example_index_def example_tables_def)
  have 2: "\<not> node_exists missing_file" by (simp add: missing_file_def)
  from 1 2 update_file_noop [OF 1 2, of "example_collab []"] show ?thesis by simp
qed


text \<open>
  Claim C10. For an argument that is neither a file nor a folder, when the files table
  has a row for its path or the node exists, \<^verbatim>\<open>update_file\<close> raises
  \<^verbatim>\<open>TypeError\<close>. The only event is the \<^verbatim>\<open>start-update\<close> signal of the Files
  indexer: there is no \<^verbatim>\<open>finish-update\<close>, no commit and no \<^verbatim>\<open>changed\<close>, and
  the connection is as it was.
\<close>

theorem update_file_type_error:
  assumes "kind n = Other"
    and "query (select_where ''files'' ''path'' (Text (relpath n))) (priv_db idx) = Inr rows"
    and "rows \<noteq> [] \<or> node_exists n"
  shows "update_file c n idx =
           (Inl TypeError, record_event (Emit ''FilesIndexer'' ''start-update'') idx) \<and>
         new_events idx (snd (update_file c n idx)) = [Emit ''FilesIndexer'' ''start-update''] \<and>
         priv_db (snd (update_file c n idx)) = priv_db idx"
proof -
  have "update_file c n idx =
           (Inl TypeError, record_event (Emit ''FilesIndexer'' ''start-update'') idx)"
    using assms
    by (auto simp: update_file_def update_file_dispatch_def fetchone_def split: list.splits)
  then show ?thesis by (simp add: new_events_def record_event_def)
qed

theorem update_file_type_error_witness:
  "kind strange_node = Other \<and>
   query (select_where ''files'' ''path'' (Text (relpath strange_node))) (priv_db example_index) =
     Inr [[(''id'', Integer 1), (''path'', Text ''a.txt''), (''index_status'', Integer 0)]] \<and>
   update_file (example_collab []) strange_node example_index =
     (Inl TypeError, record_event (Emit ''FilesIndexer'' ''start-update'') example_index) \<and>
   new_events example_index (snd (update_file (example_collab []) strange_node example_index)) =
     [Emit ''FilesIndexer'' ''start-update''] \<and>
   priv_db (snd (update_file (example_collab []) strange_node example_index)) =
     priv_db example_index"
proof -
  have 1: "kind strange_node = Other" by (simp add: strange_node_def)
  have 2: "query (select_where ''files'' ''path'' (Text (relpath strange_node)))
             (priv_db example_index) =
           Inr [[(''id'', Integer 1), (''path'', Text ''a.txt''), (''index_status'', Integer 0)]]"
    by (simp add: query_def select_where_def matches_def column_def name_defs strange_node_def
        example_index_def example_tables_def)
  have 3: "[[(''id'', Integer 1), (''path'', Text ''a.txt''), (''index_status'', Integer 0)]] \<noteq> []
           \<or> node_exists strange_node"
    by simp
  from 1 2 update_file_type_error [OF 1 2 3, of "example_collab []"] show ?thesis
    by (simp add: new_events_def record_event_def)
qed


section \<open>Properties of the placeholder of the current page\<close>

lemma pages_not_links [simp]:
  "\<not> same_name ''pages'' ''links''" "\<not> same_name ''links'' ''pages''"
  by (simp_all add: name_defs)

lemma matches_anchor_row [simp]: "matches ''source'' ROOT_ID (anchor_row c pid name)"
  by (simp add: matches_def anchor_row_def column_def ROOT_ID_def name_defs)

lemma matches_placeholder_row [simp]:
  "matches ''name'' (Text other) (placeholder_row pid name) \<longleftrightarrow> other = name"
  by (auto simp: matches_def placeholder_row_def column_def name_defs)

lemma no_anchor_left [simp]:
  "filter (matches ''source'' ROOT_ID)
     (filter P (filter (\<lambda>l. \<not> matches ''source'' ROOT_ID l) ls)) = []"
  by (induction ls) auto

lemma touch_effect:
  assumes db: "is_database (priv_db idx)"
    and ps: "named (working (priv_db idx)) ''pages'' = Some ps"
    and ls: "named (working (priv_db idx)) ''links'' = Some ls"
  shows "\<exists>idx'. touch_current_page_placeholder c name idx = (Inr (), idx') \<and>
           is_database (priv_db idx') \<and>
           named (working (priv_db idx')) ''pages'' =
             Some (if filter (matches ''name'' (Text name)) (cleaned_pages (working (priv_db idx))) = []
                   then cleaned_pages (working (priv_db idx)) @
                        [placeholder_row (new_page_id (cleaned_pages (working (priv_db idx)))) name]
                   else cleaned_pages (working (priv_db idx))) \<and>
           named (working (priv_db idx')) ''links'' =
             Some (if filter (matches ''name'' (Text name)) (cleaned_pages (working (priv_db idx))) = []
                   then cleaned_links (working (priv_db idx)) @
                        [anchor_row c (Integer (new_page_id (cleaned_pages (working (priv_db idx))))) name]
                   else cleaned_links (working (priv_db idx)))"
proof -
  let ?t = "working (priv_db idx)"
  let ?i0 = "record_event Acquire idx"
  let ?ls1 = "filter (\<lambda>l. \<not> matches ''source'' ROOT_ID l) ls"
  let ?t1 = "store_named ''links'' ?ls1 ?t"
  let ?i1 = "set_working ?t1 ?i0"
  have s1: "db_execute (delete_where ''links'' ''source'' ROOT_ID) ?i0 = (Inr (), ?i1)"
    using db ls
    by (simp add: db_execute_def execute_def delete_where_def record_event_def set_working_def)
  let ?t2 = "store_named ''links'' (cleaned_links ?t)
               (store_named ''pages'' (cleaned_pages ?t) ?t1)"
  let ?i2 = "set_working ?t2 ?i0"
  have s2: "db_execute cleanup_placeholders ?i1 = (Inr (), ?i2)"
    using db ps ls
    by (simp add: db_execute_def execute_def cleanup_placeholders_def record_event_def
        set_working_def cleaned_links_def cleaned_pages_def links_of_def pages_of_def)
  have p2: "named ?t2 ''pages'' = Some (cleaned_pages ?t)"
    and l2: "named ?t2 ''links'' = Some (cleaned_links ?t)"
    by simp_all
  have s3: "query (select_where ''pages'' ''name'' (Text name)) (priv_db ?i2) =
              Inr (filter (matches ''name'' (Text name)) (cleaned_pages ?t))"
    using db p2 by (simp add: query_def select_where_def set_working_def record_event_def)
  show ?thesis
  proof (cases "filter (matches ''name'' (Text name)) (cleaned_pages ?t) = []")
    case True
    let ?pid = "new_page_id (cleaned_pages ?t)"
    let ?t3 = "store_named ''pages'' (cleaned_pages ?t @ [placeholder_row ?pid name]) ?t2"
    let ?t4 = "store_named ''links'' (cleaned_links ?t @ [anchor_row c (Integer ?pid) name]) ?t3"
    have s4: "touch_if_needed c name ?i2 = (Inr (), set_working ?t4 ?i0)"
      using db p2 l2
      by (simp add: touch_if_needed_def db_call_def insert_link_placeholder_def db_execute_def
          execute_def insert_into_def set_working_def record_event_def)
    have "touch_current_page_placeholder c name idx =
            (Inr (), record_event Release (record_event (Emit ''Index'' ''changed'')
                       (db_commit (set_working ?t4 ?i0))))"
      using True
      by (simp add: touch_current_page_placeholder_def with_lock_def s1 s2 s3 s4 fetchone_def)
    moreover have "named ?t4 ''pages'' = Some (cleaned_pages ?t @ [placeholder_row ?pid name])"
      "named ?t4 ''links'' = Some (cleaned_links ?t @ [anchor_row c (Integer ?pid) name])"
      by simp_all
    ultimately show ?thesis
      using True db
      by (simp add: record_event_def db_commit_def commit_def set_working_def)
  next
    case False
    then obtain r where
      "fetchone (filter (matches ''name'' (Text name)) (cleaned_pages ?t)) = Some r"
      by (cases "filter (matches ''name'' (Text name)) (cleaned_pages ?t)")
        (simp_all add: fetchone_def)
    then have "touch_current_page_placeholder c name idx =
            (Inr (), record_event Release (record_event (Emit ''Index'' ''changed'')
                       (db_commit ?i2)))"
      by (simp add: touch_current_page_placeholder_def with_lock_def s1 s2 s3)
    then show ?thesis
      using False db p2 l2
      by (simp add: record_event_def db_commit_def commit_def set_working_def)
  qed
qed


lemma survives_cleaned:
  "survives name t \<longleftrightarrow> filter (matches ''name'' (Text name)) (cleaned_pages t) \<noteq> []"
  by (auto simp: survives_def cleaned_pages_def pages_named_def list_ex_iff filter_empty_conv)

lemma anchors_cleaned [simp]: "filter (matches ''source'' ROOT_ID) (cleaned_links t) = []"
  unfolding cleaned_links_def by (rule no_anchor_left)

lemma touch_anchor:
  assumes db: "is_database (priv_db idx)"
    and ps: "named (working (priv_db idx)) ''pages'' \<noteq> None"
    and ls: "named (working (priv_db idx)) ''links'' \<noteq> None"
  shows "\<exists>idx'. touch_current_page_placeholder c name idx = (Inr (), idx') \<and>
           is_database (priv_db idx') \<and>
           named (working (priv_db idx')) ''pages'' \<noteq> None \<and>
           named (working (priv_db idx')) ''links'' \<noteq> None \<and>
           length (anchors (working (priv_db idx'))) \<le> 1 \<and>
           (if survives name (working (priv_db idx)) then anchors (working (priv_db idx')) = []
            else \<exists>pid. anchors (working (priv_db idx')) = [anchor_row c (Integer pid) name] \<and>
                   placeholder_row pid name \<in> set (pages_named name (working (priv_db idx')))) \<and>
           (\<forall>other. other \<noteq> name \<longrightarrow> \<not> survives other (working (priv_db idx)) \<longrightarrow>
                pages_named other (working (priv_db idx')) = [])"
proof -
  from ps ls obtain p l where pl: "named (working (priv_db idx)) ''pages'' = Some p"
    "named (working (priv_db idx)) ''links'' = Some l" by auto
  from touch_effect [OF db pl, of c name] obtain idx' where
    r: "touch_current_page_placeholder c name idx = (Inr (), idx')"
    and d: "is_database (priv_db idx')"
    and p': "named (working (priv_db idx')) ''pages'' =
             Some (if filter (matches ''name'' (Text name)) (cleaned_pages (working (priv_db idx))) = []
                   then cleaned_pages (working (priv_db idx)) @
                        [placeholder_row (new_page_id (cleaned_pages (working (priv_db idx)))) name]
                   else cleaned_pages (working (priv_db idx)))"
    and l': "named (working (priv_db idx')) ''links'' =
             Some (if filter (matches ''name'' (Text name)) (cleaned_pages (working (priv_db idx))) = []
                   then cleaned_links (working (priv_db idx)) @
                        [anchor_row c (Integer (new_page_id (cleaned_pages (working (priv_db idx))))) name]
                   else cleaned_links (working (priv_db idx)))"
    by blast
  have a: "length (anchors (working (priv_db idx'))) \<le> 1"
    using l' by (simp add: anchors_def links_of_def)
  have b: "if survives name (working (priv_db idx)) then anchors (working (priv_db idx')) = []
            else \<exists>pid. anchors (working (priv_db idx')) = [anchor_row c (Integer pid) name] \<and>
                   placeholder_row pid name \<in> set (pages_named name (working (priv_db idx')))"
    using l' p' by (auto simp: anchors_def links_of_def pages_named_def pages_of_def survives_cleaned)
  have c: "pages_named other (working (priv_db idx')) = []"
    if "other \<noteq> name" "\<not> survives other (working (priv_db idx))" for other
    using that p' by (auto simp: pages_named_def pages_of_def survives_cleaned)
  from r d p' l' a b c show ?thesis by auto
qed

lemmas touch_defs =
  touch_current_page_placeholder_def with_lock_def db_execute_def execute_def
  delete_where_def cleanup_placeholders_def query_def select_where_def fetchone_def
  touch_if_needed_def db_call_def insert_link_placeholder_def insert_into_def
  record_event_def db_commit_def commit_def set_working_def matches_def column_def name_defs
  ROOT_ID_def
  orphaned_def is_placeholder_def has_incoming_def new_page_id_def page_id_int_def
  placeholder_row_def anchor_row_def anchors_def links_of_def pages_of_def pages_named_def
  real_content_def survives_def linked_index_def linked_tables_def example_collab_def

text \<open>
  Claim C5, as stated, fails. \<open>Plans\<close> is a placeholder page that the page
  \<open>Home\<close> links to, and no page is named \<open>Draft\<close>. After the placeholder of the
  current page is touched for \<open>Draft\<close> and then for \<open>Plans\<close>, the links table
  holds no edge from the root sentinel: the page \<open>Plans\<close> is found in the pages table,
  so no anchor is inserted for it.
\<close>

theorem anchor_missing_counterexample:
  "''Draft'' \<noteq> ''Plans'' \<and>
   \<not> real_content ''Draft'' linked_tables \<and>
   \<not> real_content ''Plans'' linked_tables \<and>
   fst (touch_current_page_placeholder (example_collab []) ''Plans''
          (snd (touch_current_page_placeholder (example_collab []) ''Draft'' linked_index))) =
     Inr () \<and>
   anchors (working (priv_db (snd (touch_current_page_placeholder (example_collab []) ''Plans''
     (snd (touch_current_page_placeholder (example_collab []) ''Draft'' linked_index)))))) = []"
  by (simp add: touch_defs)

text \<open>
  Claim C5, amended. On a store with a pages and a links table, touching the placeholder
  for \<open>P\<close> and then for \<open>Q\<close>, \<open>P \<noteq> Q\<close>, returns normally both times and
  leaves at most one edge from the root sentinel after each call. After the second call
  there is none if a page named \<open>Q\<close> survives the cleanup (it has content, or a page
  links to it); otherwise there is exactly one, and it targets a placeholder page named
  \<open>Q\<close> that the call inserted. No page named \<open>P\<close> is left if none survives the
  cleanup, that is, if \<open>P\<close> names placeholders only and no edge but the anchor
  targets them.
\<close>

theorem placeholder_anchor_exclusive:
  assumes pages: "has_table ''pages'' idx"
    and links: "has_table ''links'' idx"
    and neq: "P \<noteq> Q"
  shows "\<exists>i1 i2.
           touch_current_page_placeholder c P idx = (Inr (), i1) \<and>
           touch_current_page_placeholder c Q i1 = (Inr (), i2) \<and>
           length (anchors (working (priv_db i1))) \<le> 1 \<and>
           length (anchors (working (priv_db i2))) \<le> 1 \<and>
           (if survives Q (working (priv_db i1)) then anchors (working (priv_db i2)) = []
            else \<exists>pid. anchors (working (priv_db i2)) = [anchor_row c (Integer pid) Q] \<and>
                   placeholder_row pid Q \<in> set (pages_named Q (working (priv_db i2)))) \<and>
           (\<not> survives P (working (priv_db i1)) \<longrightarrow> pages_named P (working (priv_db i2)) = [])"
proof -
  from pages links have db: "is_database (priv_db idx)"
    and ps: "named (working (priv_db idx)) ''pages'' \<noteq> None"
    and ls: "named (working (priv_db idx)) ''links'' \<noteq> None"
    by (simp_all add: has_table_def)
  from touch_anchor [OF db ps ls, of c P] obtain i1 where
    1: "touch_current_page_placeholder c P idx = (Inr (), i1)"
      "is_database (priv_db i1)"
      "named (working (priv_db i1)) ''pages'' \<noteq> None"
      "named (working (priv_db i1)) ''links'' \<noteq> None"
      "length (anchors (working (priv_db i1))) \<le> 1"
    by blast
  from touch_anchor [OF 1(2,3,4), of c Q] obtain i2 where
    2: "touch_current_page_placeholder c Q i1 = (Inr (), i2)"
      "length (anchors (working (priv_db i2))) \<le> 1"
      "if survives Q (working (priv_db i1)) then anchors (working (priv_db i2)) = []
       else \<exists>pid. anchors (working (priv_db i2)) = [anchor_row c (Integer pid) Q] \<and>
              placeholder_row pid Q \<in> set (pages_named Q (working (priv_db i2)))"
      "\<forall>other. other \<noteq> Q \<longrightarrow> \<not> survives other (working (priv_db i1)) \<longrightarrow>
          pages_named other (working (priv_db i2)) = []"
    by blast
  from 2(4) neq have "\<not> survives P (working (priv_db i1)) \<longrightarrow>
      pages_named P (working (priv_db i2)) = []"
    by blast
  with 1 2 show ?thesis by blast
qed


theorem placeholder_anchor_exclusive_witness:
  "has_table ''pages'' linked_index \<and>
   has_table ''links'' linked_index \<and>
   ''Draft'' \<noteq> ''Notes'' \<and>
   (\<exists>i1 i2.
      touch_current_page_placeholder (example_collab []) ''Draft'' linked_index = (Inr (), i1) \<and>
      touch_current_page_placeholder (example_collab []) ''Notes'' i1 = (Inr (), i2) \<and>
      length (anchors (working (priv_db i1))) \<le> 1 \<and>
      length (anchors (working (priv_db i2))) \<le> 1 \<and>
      (\<exists>pid. anchors (working (priv_db i2)) = [anchor_row (example_collab []) (Integer pid) ''Notes''] \<and>
             placeholder_row pid ''Notes'' \<in> set (pages_named ''Notes'' (working (priv_db i2)))) \<and>
      pages_named ''Draft'' (working (priv_db i2)) = [])"
proof -
  let ?c = "example_collab []"
  have 1: "has_table ''pages'' linked_index"
    by (simp add: has_table_def linked_index_def linked_tables_def name_defs)
  have 2: "has_table ''links'' linked_index"
    by (simp add: has_table_def linked_index_def linked_tables_def name_defs)
  have 3: "''Draft'' \<noteq> ''Notes''" by simp
  from placeholder_anchor_exclusive [OF 1 2 3, of ?c] obtain i1 i2 where
    r: "touch_current_page_placeholder ?c ''Draft'' linked_index = (Inr (), i1)"
      "touch_current_page_placeholder ?c ''Notes'' i1 = (Inr (), i2)"
      "length (anchors (working (priv_db i1))) \<le> 1"
      "length (anchors (working (priv_db i2))) \<le> 1"
      "if survives ''Notes'' (working (priv_db i1)) then anchors (working (priv_db i2)) = []
       else \<exists>pid. anchors (working (priv_db i2)) = [anchor_row ?c (Integer pid) ''Notes''] \<and>
              placeholder_row pid ''Notes'' \<in> set (pages_named ''Notes'' (working (priv_db i2)))"
      "\<not> survives ''Draft'' (working (priv_db i1)) \<longrightarrow>
         pages_named ''Draft'' (working (priv_db i2)) = []"
    by blast
  from r(1) have i1: "i1 = snd (touch_current_page_placeholder ?c ''Draft'' linked_index)"
    by simp
  have "\<not> survives ''Notes'' (working (priv_db i1))" "\<not> survives ''Draft'' (working (priv_db i1))"
    unfolding i1 by (simp_all add: touch_defs)
  with r 1 2 3 show ?thesis by auto
qed

end
